theory Spec2Isabelle
  imports Complex_Main
begin

section \<open>Model selection for per-word Gaussian HMMs (my_model_selectors.py)\<close>

text \<open>
  A shallow embedding of the four selector classes of \<^verbatim>\<open>my_model_selectors.py\<close>:
  \<^verbatim>\<open>SelectorConstant\<close>, \<^verbatim>\<open>SelectorBIC\<close>, \<^verbatim>\<open>SelectorDIC\<close> and \<^verbatim>\<open>SelectorCV\<close>, with the
  base class \<^verbatim>\<open>ModelSelector\<close>.

  \<^item> A Python exception is a value \<open>Inl e\<close>; a method that returns is \<open>Inr v\<close>.
  \<^item> The selector object is a record; a method is a function from the world (the object
    and the list of calls made to hmmlearn so far) to its result and the new world, so
    that the assignment to \<^verbatim>\<open>self.X, self.lengths\<close> in \<^verbatim>\<open>cv_score\<close> is visible.
  \<^item> hmmlearn's \<^verbatim>\<open>GaussianHMM(...).fit\<close> and \<^verbatim>\<open>model.score\<close> are parameters: any function
    from the training data to a fitted model or an exception, and from a model and data
    to a float or an exception. It is seeded, hence a function.
  \<^item> A Python float is a real number, an infinity or NaN. Rounding and overflow of
    binary64 are outside this model; the special values are in it because the source builds
    them (\<^verbatim>\<open>float("Inf")\<close>, \<^verbatim>\<open>float("-Inf")\<close>, \<^verbatim>\<open>np.mean([])\<close>, \<^verbatim>\<open>np.log(0)\<close>).
  \<^item> The \<^verbatim>\<open>print\<close> calls under \<^verbatim>\<open>self.verbose\<close> and the warning filters have no effect on
    any value and are left out.
\<close>

subsection \<open>Python floats\<close>

datatype pyfloat = Fin real | PInf | NInf | NaN

text \<open>\<^verbatim>\<open>a < b\<close> on floats: every comparison with NaN is false.\<close>

fun flt_less :: "pyfloat \<Rightarrow> pyfloat \<Rightarrow> bool" where
  "flt_less (Fin a) (Fin b) = (a < b)"
| "flt_less (Fin a) PInf = True"
| "flt_less NInf (Fin b) = True"
| "flt_less NInf PInf = True"
| "flt_less a b = False"

fun flt_neg :: "pyfloat \<Rightarrow> pyfloat" where
  "flt_neg (Fin a) = Fin (- a)"
| "flt_neg PInf = NInf"
| "flt_neg NInf = PInf"
| "flt_neg NaN = NaN"

fun flt_add :: "pyfloat \<Rightarrow> pyfloat \<Rightarrow> pyfloat" where
  "flt_add (Fin a) (Fin b) = Fin (a + b)"
| "flt_add NaN b = NaN"
| "flt_add a NaN = NaN"
| "flt_add PInf NInf = NaN"
| "flt_add NInf PInf = NaN"
| "flt_add PInf b = PInf"
| "flt_add a PInf = PInf"
| "flt_add NInf b = NInf"
| "flt_add a NInf = NInf"

definition flt_sub :: "pyfloat \<Rightarrow> pyfloat \<Rightarrow> pyfloat" where
  "flt_sub a b = flt_add a (flt_neg b)"

text \<open>The sign of a float, for products with an infinity: \<open>inf * 0\<close> is NaN.\<close>

fun flt_mul :: "pyfloat \<Rightarrow> pyfloat \<Rightarrow> pyfloat" where
  "flt_mul (Fin a) (Fin b) = Fin (a * b)"
| "flt_mul NaN b = NaN"
| "flt_mul a NaN = NaN"
| "flt_mul (Fin a) PInf = (if a = 0 then NaN else if 0 < a then PInf else NInf)"
| "flt_mul (Fin a) NInf = (if a = 0 then NaN else if 0 < a then NInf else PInf)"
| "flt_mul PInf (Fin b) = (if b = 0 then NaN else if 0 < b then PInf else NInf)"
| "flt_mul NInf (Fin b) = (if b = 0 then NaN else if 0 < b then NInf else PInf)"
| "flt_mul PInf PInf = PInf"
| "flt_mul NInf NInf = PInf"
| "flt_mul PInf NInf = NInf"
| "flt_mul NInf PInf = NInf"

text \<open>Division of a float by a positive count, as \<^verbatim>\<open>np.mean\<close> does after summing.\<close>

fun flt_div_count :: "pyfloat \<Rightarrow> nat \<Rightarrow> pyfloat" where
  "flt_div_count (Fin a) k = Fin (a / real k)"
| "flt_div_count a k = a"

text \<open>
  \<^verbatim>\<open>np.mean(scores)\<close> of a Python list of floats: the sum over the count. Of the empty list
  it is NaN (numpy warns and returns NaN; a warning is not an exception).
\<close>

definition np_mean :: "pyfloat list \<Rightarrow> pyfloat" where
  "np_mean scores =
     (if scores = [] then NaN
      else flt_div_count (foldl flt_add (Fin 0) scores) (length scores))"

text \<open>
  \<^verbatim>\<open>np.log(n)\<close> of a Python integer: the natural logarithm; \<open>-inf\<close> at 0 and NaN below
  (again with a warning only).
\<close>

definition np_log :: "int \<Rightarrow> pyfloat" where
  "np_log n = (if 0 < n then Fin (ln (real_of_int n)) else if n = 0 then NInf else NaN)"

subsection \<open>Exceptions, and methods as functions of the world\<close>

datatype exn = AttributeError | KeyError | ValueError | IndexError | UnboundLocalError
  | LibraryError

type_synonym ('w, 'a) py = "'w \<Rightarrow> (exn + 'a) \<times> 'w"

definition py_return :: "'a \<Rightarrow> ('w, 'a) py" where
  "py_return v w = (Inr v, w)"

definition py_raise :: "exn \<Rightarrow> ('w, 'a) py" where
  "py_raise e w = (Inl e, w)"

text \<open>Sequencing: an exception of the first statement skips the rest, keeping the world.\<close>

definition py_bind :: "('w, 'a) py \<Rightarrow> ('a \<Rightarrow> ('w, 'b) py) \<Rightarrow> ('w, 'b) py" where
  "py_bind p f w = (case p w of (Inl e, w') \<Rightarrow> (Inl e, w') | (Inr v, w') \<Rightarrow> f v w')"

text \<open>
  \<^verbatim>\<open>try: p  except: h\<close> with a bare \<^verbatim>\<open>except\<close>: every exception of \<open>p\<close> is caught, and the
  handler runs in the world \<open>p\<close> left behind.
\<close>

definition py_try :: "('w, 'a) py \<Rightarrow> ('w, 'a) py \<Rightarrow> ('w, 'a) py" where
  "py_try p h w = (case p w of (Inl e, w') \<Rightarrow> h w' | (Inr v, w') \<Rightarrow> (Inr v, w'))"

text \<open>Reading a field of the world, and the result of a pure library call.\<close>

definition py_read :: "('w \<Rightarrow> 'a) \<Rightarrow> ('w, 'a) py" where
  "py_read f w = (Inr (f w), w)"

definition py_lift :: "exn + 'a \<Rightarrow> ('w, 'a) py" where
  "py_lift r w = (r, w)"

subsection \<open>The external collaborators\<close>

text \<open>
  hmmlearn. \<open>fit n seed X lengths\<close> stands for
  \<^verbatim>\<open>GaussianHMM(n_components=n, covariance_type="diag", n_iter=1000, random_state=seed,
  verbose=False).fit(X, lengths)\<close> and \<open>score m X lengths\<close> for \<^verbatim>\<open>m.score(X, lengths)\<close>.
\<close>

record ('x, 'm) hmmlearn =
  fit :: "int \<Rightarrow> int \<Rightarrow> 'x list \<Rightarrow> nat list \<Rightarrow> exn + 'm"
  score :: "'m \<Rightarrow> 'x list \<Rightarrow> nat list \<Rightarrow> exn + pyfloat"

text \<open>The calls made to hmmlearn, in order: what was trained and what was scored.\<close>

datatype ('x, 'm) call =
  FitCall int int "'x list" "nat list"
  | ScoreCall 'm "'x list" "nat list"

text \<open>
  \<^verbatim>\<open>KFold(n_splits=k).split(seqs)\<close> of scikit-learn on \<open>n\<close> samples, without shuffling: the
  first \<open>n mod k\<close> folds hold \<open>n div k + 1\<close> consecutive indices, the others \<open>n div k\<close>; each
  fold is yielded as (the other indices, the fold's indices). With fewer samples than
  folds it raises \<^verbatim>\<open>ValueError\<close>.
\<close>

definition fold_start :: "nat \<Rightarrow> nat \<Rightarrow> nat \<Rightarrow> nat" where
  "fold_start k n i = i * (n div k) + min i (n mod k)"

definition KFold_split :: "nat \<Rightarrow> nat \<Rightarrow> exn + (nat list \<times> nat list) list" where
  "KFold_split k n =
     (if n < k then Inl ValueError
      else Inr (map (\<lambda>i. (filter (\<lambda>j. j < fold_start k n i \<or> fold_start k n (Suc i) \<le> j) [0..<n],
                           [fold_start k n i..<fold_start k n (Suc i)]))
                    [0..<k]))"

text \<open>
  Modelled from the spec: \<^verbatim>\<open>asl_utils.combine_sequences\<close>, imported by the module and not
  among its sources. The spec gives it as \<^verbatim>\<open>combine(indices, sequences) ->
  (observations_matrix, length_markers)\<close>: the sequences at the indices, concatenated, with
  the length of each. An index outside the list raises \<^verbatim>\<open>IndexError\<close>.
\<close>

definition combine_sequences :: "nat list \<Rightarrow> 'x list list \<Rightarrow> exn + ('x list \<times> nat list)" where
  "combine_sequences split_index_list seqs =
     (if list_all (\<lambda>idx. idx < length seqs) split_index_list
      then Inr (concat (map (\<lambda>idx. seqs ! idx) split_index_list),
                map (\<lambda>idx. length (seqs ! idx)) split_index_list)
      else Inl IndexError)"

subsection \<open>ModelSelector\<close>

text \<open>
  The two dictionaries are association lists, in insertion order (the order in which
  \<^verbatim>\<open>dict.items()\<close> yields them); \<open>map_of\<close> is the lookup.
\<close>

record 'x ModelSelector =
  words :: "(string \<times> 'x list list) list"
  hwords :: "(string \<times> 'x list \<times> nat list) list"
  sequences :: "'x list list"
  X :: "'x list"
  lengths :: "nat list"
  this_word :: string
  n_constant :: int
  min_n_components :: int
  max_n_components :: int
  random_state :: int
  verbose :: bool

record ('x, 'm) world =
  self :: "'x ModelSelector"
  calls :: "('x, 'm) call list"

text \<open>\<^verbatim>\<open>ModelSelector.__init__\<close>: a word missing from a dictionary is a \<^verbatim>\<open>KeyError\<close>.\<close>

definition init :: "(string \<times> 'x list list) list \<Rightarrow> (string \<times> 'x list \<times> nat list) list \<Rightarrow> string
    \<Rightarrow> int \<Rightarrow> int \<Rightarrow> int \<Rightarrow> int \<Rightarrow> bool \<Rightarrow> exn + 'x ModelSelector" where
  "init all_word_sequences all_word_Xlengths word nc mn mx seed vb =
     (case map_of all_word_sequences word of
        None \<Rightarrow> Inl KeyError
      | Some seqs \<Rightarrow>
          (case map_of all_word_Xlengths word of
             None \<Rightarrow> Inl KeyError
           | Some (x, ls) \<Rightarrow>
               Inr \<lparr>words = all_word_sequences, hwords = all_word_Xlengths, sequences = seqs,
                    X = x, lengths = ls, this_word = word, n_constant = nc,
                    min_n_components = mn, max_n_components = mx, random_state = seed,
                    verbose = vb\<rparr>))"

text \<open>The two library calls, each recorded in the world before its result is known.\<close>

definition call_fit :: "('x, 'm) hmmlearn \<Rightarrow> int \<Rightarrow> (('x, 'm) world, 'm) py" where
  "call_fit env num_states w =
     (fit env num_states (random_state (self w)) (X (self w)) (lengths (self w)),
      w\<lparr>calls := calls w @ [FitCall num_states (random_state (self w)) (X (self w)) (lengths (self w))]\<rparr>)"

text \<open>\<^verbatim>\<open>model.score(X, lengths)\<close>; on \<^verbatim>\<open>None\<close> the attribute lookup raises.\<close>

definition call_score :: "('x, 'm) hmmlearn \<Rightarrow> 'm option \<Rightarrow> 'x list \<Rightarrow> nat list
    \<Rightarrow> (('x, 'm) world, pyfloat) py" where
  "call_score env model x ls w =
     (case model of
        None \<Rightarrow> (Inl AttributeError, w)
      | Some m \<Rightarrow> (score env m x ls, w\<lparr>calls := calls w @ [ScoreCall m x ls]\<rparr>))"

text \<open>\<^verbatim>\<open>base_model\<close>: train on \<^verbatim>\<open>self.X, self.lengths\<close>; any exception gives \<^verbatim>\<open>None\<close>.\<close>

definition base_model :: "('x, 'm) hmmlearn \<Rightarrow> int \<Rightarrow> (('x, 'm) world, 'm option) py" where
  "base_model env num_states =
     py_try (py_bind (call_fit env num_states) (\<lambda>hmm_model. py_return (Some hmm_model)))
            (py_return None)"

subsection \<open>SelectorConstant\<close>

definition SelectorConstant_select :: "('x, 'm) hmmlearn \<Rightarrow> (('x, 'm) world, 'm option) py" where
  "SelectorConstant_select env =
     py_bind (py_read (\<lambda>w. n_constant (self w)))
       (\<lambda>best_num_components. base_model env best_num_components)"

subsection \<open>SelectorBIC\<close>

definition calc_deg_lib :: "int \<Rightarrow> int \<Rightarrow> int" where
  "calc_deg_lib num_states num_data_points =
     num_states ^ 2 + 2 * num_states * num_data_points - 1"

definition calc_score :: "pyfloat \<Rightarrow> int \<Rightarrow> int \<Rightarrow> pyfloat" where
  "calc_score log_likelihood num_free_params num_data_points =
     flt_add (flt_mul (Fin (- 2)) log_likelihood)
             (flt_mul (Fin (real_of_int num_free_params)) (np_log num_data_points))"

text \<open>
  \<^verbatim>\<open>min(score_bics, key=lambda x: x[0])\<close>: Python's \<^verbatim>\<open>min\<close> keeps the first item and replaces
  it by a later one only when the later key is strictly less; on an empty list it raises
  \<^verbatim>\<open>ValueError\<close>.
\<close>

fun min_key :: "(pyfloat \<times> 'a) \<Rightarrow> (pyfloat \<times> 'a) list \<Rightarrow> pyfloat \<times> 'a" where
  "min_key cur [] = cur"
| "min_key cur (item # items) =
     min_key (if flt_less (fst item) (fst cur) then item else cur) items"

definition calc_best_score_bic :: "(pyfloat \<times> 'a) list \<Rightarrow> exn + (pyfloat \<times> 'a)" where
  "calc_best_score_bic score_bics =
     (case score_bics of [] \<Rightarrow> Inl ValueError | item # items \<Rightarrow> Inr (min_key item items))"

text \<open>The body of the \<^verbatim>\<open>try\<close> in the loop, for one \<^verbatim>\<open>num_states\<close>.\<close>

definition bic_try_body :: "('x, 'm) hmmlearn \<Rightarrow> int \<Rightarrow> (pyfloat \<times> 'm option) list
    \<Rightarrow> (('x, 'm) world, (pyfloat \<times> 'm option) list) py" where
  "bic_try_body env num_states score_bics =
     py_bind (base_model env num_states) (\<lambda>hmm_model.
     py_bind (py_read (\<lambda>w. (X (self w), lengths (self w)))) (\<lambda>(x, ls).
     py_bind (call_score env hmm_model x ls) (\<lambda>log_likelihood.
       let num_data_points = int (sum_list ls);
           num_free_params = calc_deg_lib num_states num_data_points;
           score_bic = calc_score log_likelihood num_free_params num_data_points
       in py_return (score_bics @ [(score_bic, hmm_model)]))))"

fun bic_loop :: "('x, 'm) hmmlearn \<Rightarrow> int list \<Rightarrow> (pyfloat \<times> 'm option) list
    \<Rightarrow> (('x, 'm) world, (pyfloat \<times> 'm option) list) py" where
  "bic_loop env [] score_bics = py_return score_bics"
| "bic_loop env (num_states # rest) score_bics =
     py_bind (py_try (bic_try_body env num_states score_bics) (py_return score_bics))
       (\<lambda>score_bics'. bic_loop env rest score_bics')"

definition SelectorBIC_select :: "('x, 'm) hmmlearn \<Rightarrow> (('x, 'm) world, 'm option) py" where
  "SelectorBIC_select env =
     py_bind (py_read (\<lambda>w. [min_n_components (self w)..max_n_components (self w)])) (\<lambda>range.
     py_bind (bic_loop env range []) (\<lambda>score_bics.
       if score_bics \<noteq> []
       then py_bind (py_lift (calc_best_score_bic score_bics)) (\<lambda>best. py_return (snd best))
       else py_return None))"

subsection \<open>SelectorDIC\<close>

text \<open>The loop of \<^verbatim>\<open>dic_score\<close> over \<^verbatim>\<open>self.hwords.items()\<close>.\<close>

fun dic_others :: "('x, 'm) hmmlearn \<Rightarrow> 'm option \<Rightarrow> string
    \<Rightarrow> (string \<times> 'x list \<times> nat list) list \<Rightarrow> pyfloat list
    \<Rightarrow> (('x, 'm) world, pyfloat list) py" where
  "dic_others env model this [] scores = py_return scores"
| "dic_others env model this ((word, x, ls) # items) scores =
     (if word \<noteq> this
      then py_bind (call_score env model x ls)
             (\<lambda>sc. dic_others env model this items (scores @ [sc]))
      else dic_others env model this items scores)"

definition dic_score :: "('x, 'm) hmmlearn \<Rightarrow> int
    \<Rightarrow> (('x, 'm) world, pyfloat \<times> 'm option) py" where
  "dic_score env n =
     py_bind (base_model env n) (\<lambda>model.
     py_bind (py_read (\<lambda>w. (hwords (self w), this_word (self w)))) (\<lambda>(items, this).
     py_bind (dic_others env model this items []) (\<lambda>scores.
     py_bind (py_read (\<lambda>w. (X (self w), lengths (self w)))) (\<lambda>(x, ls).
     py_bind (call_score env model x ls) (\<lambda>own.
       py_return (flt_sub own (np_mean scores), model))))))"

text \<open>The \<^verbatim>\<open>for\<close> loop of \<^verbatim>\<open>SelectorDIC.select\<close>: \<^verbatim>\<open>score > best_score\<close> replaces the best.\<close>

fun dic_loop :: "('x, 'm) hmmlearn \<Rightarrow> int list \<Rightarrow> pyfloat \<times> 'm option
    \<Rightarrow> (('x, 'm) world, pyfloat \<times> 'm option) py" where
  "dic_loop env [] best = py_return best"
| "dic_loop env (n # rest) best =
     py_bind (dic_score env n) (\<lambda>(score, model).
       if flt_less (fst best) score
       then dic_loop env rest (score, model)
       else dic_loop env rest best)"

definition SelectorDIC_select :: "('x, 'm) hmmlearn \<Rightarrow> (('x, 'm) world, 'm option) py" where
  "SelectorDIC_select env =
     py_try
       (py_bind (py_read (\<lambda>w. [min_n_components (self w)..max_n_components (self w)])) (\<lambda>range.
        py_bind (dic_loop env range (NInf, None)) (\<lambda>(best_score, best_model).
          py_return best_model)))
       (py_bind (py_read (\<lambda>w. n_constant (self w))) (\<lambda>nc. base_model env nc))"

subsection \<open>SelectorCV\<close>

text \<open>The assignment \<^verbatim>\<open>self.X, self.lengths = ...\<close>.\<close>

definition assign_X_lengths :: "'x list \<times> nat list \<Rightarrow> (('x, 'm) world, unit) py" where
  "assign_X_lengths xl w = (Inr (), w\<lparr>self := (self w)\<lparr>X := fst xl, lengths := snd xl\<rparr>\<rparr>)"

text \<open>
  The loop of \<^verbatim>\<open>cv_score\<close> over the folds. The variable \<^verbatim>\<open>model\<close> is unbound until the first
  fold has trained; the second component of the accumulator is \<open>None\<close> until then.
\<close>

fun cv_folds :: "('x, 'm) hmmlearn \<Rightarrow> int \<Rightarrow> (nat list \<times> nat list) list
    \<Rightarrow> pyfloat list \<times> 'm option option
    \<Rightarrow> (('x, 'm) world, pyfloat list \<times> 'm option option) py" where
  "cv_folds env n [] acc = py_return acc"
| "cv_folds env n ((train_idx, test_idx) # folds) acc =
     py_bind (py_read (\<lambda>w. sequences (self w))) (\<lambda>seqs.
     py_bind (py_lift (combine_sequences train_idx seqs)) (\<lambda>train.
     py_bind (assign_X_lengths train) (\<lambda>_.
     py_bind (base_model env n) (\<lambda>model.
     py_bind (py_lift (combine_sequences test_idx seqs)) (\<lambda>(x, l).
     py_bind (call_score env model x l) (\<lambda>sc.
       cv_folds env n folds (fst acc @ [sc], Some model)))))))"

definition cv_score :: "('x, 'm) hmmlearn \<Rightarrow> int
    \<Rightarrow> (('x, 'm) world, pyfloat \<times> 'm option) py" where
  "cv_score env n =
     py_bind (py_read (\<lambda>w. length (sequences (self w)))) (\<lambda>n_samples.
     py_bind (py_lift (KFold_split 2 n_samples)) (\<lambda>folds.
     py_bind (cv_folds env n folds ([], None)) (\<lambda>(scores, model_var).
       case model_var of
         None \<Rightarrow> py_raise UnboundLocalError
       | Some model \<Rightarrow> py_return (np_mean scores, model))))"

text \<open>The \<^verbatim>\<open>for\<close> loop of \<^verbatim>\<open>SelectorCV.select\<close>: \<^verbatim>\<open>score < best_score\<close> replaces the best.\<close>

fun cv_loop :: "('x, 'm) hmmlearn \<Rightarrow> int list \<Rightarrow> pyfloat \<times> 'm option
    \<Rightarrow> (('x, 'm) world, pyfloat \<times> 'm option) py" where
  "cv_loop env [] best = py_return best"
| "cv_loop env (n # rest) best =
     py_bind (cv_score env n) (\<lambda>(score, model).
       if flt_less score (fst best)
       then cv_loop env rest (score, model)
       else cv_loop env rest best)"

definition SelectorCV_select :: "('x, 'm) hmmlearn \<Rightarrow> (('x, 'm) world, 'm option) py" where
  "SelectorCV_select env =
     py_try
       (py_bind (py_read (\<lambda>w. [min_n_components (self w)..max_n_components (self w)])) (\<lambda>range.
        py_bind (cv_loop env range (PInf, None)) (\<lambda>(best_score, best_model).
          py_return best_model)))
       (py_bind (py_read (\<lambda>w. n_constant (self w))) (\<lambda>nc. base_model env nc))"

subsection \<open>Descriptions used in the statements\<close>

text \<open>What \<^verbatim>\<open>base_model\<close> yields on the data the selector holds: the fitted model, or \<^verbatim>\<open>None\<close>.\<close>

definition trained :: "('x, 'm) hmmlearn \<Rightarrow> 'x ModelSelector \<Rightarrow> int \<Rightarrow> 'm option" where
  "trained env s n =
     (case fit env n (random_state s) (X s) (lengths s) of Inl e \<Rightarrow> None | Inr m \<Rightarrow> Some m)"

text \<open>The state counts trained in a list of calls, in order, and the scoring calls in it.\<close>

fun fit_states :: "('x, 'm) call list \<Rightarrow> int list" where
  "fit_states [] = []"
| "fit_states (FitCall n seed x ls # cs) = n # fit_states cs"
| "fit_states (ScoreCall m x ls # cs) = fit_states cs"

fun score_calls :: "('x, 'm) call list \<Rightarrow> ('x, 'm) call list" where
  "score_calls [] = []"
| "score_calls (FitCall n seed x ls # cs) = score_calls cs"
| "score_calls (ScoreCall m x ls # cs) = ScoreCall m x ls # score_calls cs"

text \<open>The calls a method made: those of the world after it that the world before lacks.\<close>

definition new_calls :: "('x, 'm) world \<Rightarrow> ('x, 'm) world \<Rightarrow> ('x, 'm) call list" where
  "new_calls w w' = drop (length (calls w)) (calls w')"

text \<open>
  The scan all three searches share: go through the candidates in order and replace the
  best so far whenever a candidate's score is better. \<open>min_key\<close> is this scan for \<open>flt_less\<close>.
\<close>

fun keep_best :: "(pyfloat \<Rightarrow> pyfloat \<Rightarrow> bool) \<Rightarrow> pyfloat \<times> 'a \<Rightarrow> (pyfloat \<times> 'a) list
    \<Rightarrow> pyfloat \<times> 'a" where
  "keep_best better best [] = best"
| "keep_best better best (c # cs) =
     keep_best better (if better (fst c) (fst best) then c else best) cs"

text \<open>
  The BIC search in the words of its description: a candidate contributes an entry, its BIC
  score and its model, exactly when its training and its scoring both succeed; the entries
  are those of the state counts of the closed range, in order. \<open>bic_calls\<close> are the library
  calls one candidate costs.
\<close>

definition bic_candidate :: "('x, 'm) hmmlearn \<Rightarrow> 'x ModelSelector \<Rightarrow> int
    \<Rightarrow> (pyfloat \<times> 'm option) option" where
  "bic_candidate env s n =
     (case fit env n (random_state s) (X s) (lengths s) of
        Inl e \<Rightarrow> None
      | Inr m \<Rightarrow>
          (case score env m (X s) (lengths s) of
             Inl e \<Rightarrow> None
           | Inr ll \<Rightarrow>
               Some (calc_score ll (calc_deg_lib n (int (sum_list (lengths s))))
                       (int (sum_list (lengths s))), Some m)))"

definition bic_entries :: "('x, 'm) hmmlearn \<Rightarrow> 'x ModelSelector \<Rightarrow> (pyfloat \<times> 'm option) list" where
  "bic_entries env s =
     List.map_filter (bic_candidate env s) [min_n_components s..max_n_components s]"

definition bic_calls :: "('x, 'm) hmmlearn \<Rightarrow> 'x ModelSelector \<Rightarrow> int \<Rightarrow> ('x, 'm) call list" where
  "bic_calls env s n =
     FitCall n (random_state s) (X s) (lengths s) #
     (case fit env n (random_state s) (X s) (lengths s) of
        Inl e \<Rightarrow> []
      | Inr m \<Rightarrow> [ScoreCall m (X s) (lengths s)])"

text \<open>
  The DIC score in the words of its description: the model's log-likelihood on this word's
  data minus the mean of its log-likelihoods on every other word of the index. It fails when
  the training fails (the model is \<^verbatim>\<open>None\<close>, and scoring it raises) or when a scoring raises.
\<close>

definition is_other :: "string \<Rightarrow> string \<times> 'x list \<times> nat list \<Rightarrow> bool" where
  "is_other this item = (fst item \<noteq> this)"

definition other_words :: "'x ModelSelector \<Rightarrow> (string \<times> 'x list \<times> nat list) list" where
  "other_words s = filter (is_other (this_word s)) (hwords s)"

fun score_each :: "('x, 'm) hmmlearn \<Rightarrow> 'm \<Rightarrow> (string \<times> 'x list \<times> nat list) list
    \<Rightarrow> exn + pyfloat list" where
  "score_each env m [] = Inr []"
| "score_each env m ((word, x, ls) # items) =
     (case score env m x ls of
        Inl e \<Rightarrow> Inl e
      | Inr sc \<Rightarrow>
          (case score_each env m items of Inl e \<Rightarrow> Inl e | Inr scs \<Rightarrow> Inr (sc # scs)))"

definition dic_value :: "('x, 'm) hmmlearn \<Rightarrow> 'x ModelSelector \<Rightarrow> int
    \<Rightarrow> exn + (pyfloat \<times> 'm option)" where
  "dic_value env s n =
     (case fit env n (random_state s) (X s) (lengths s) of
        Inl e \<Rightarrow> Inl AttributeError
      | Inr m \<Rightarrow>
          (case score_each env m (other_words s) of
             Inl e \<Rightarrow> Inl e
           | Inr others \<Rightarrow>
               (case score env m (X s) (lengths s) of
                  Inl e \<Rightarrow> Inl e
                | Inr own \<Rightarrow> Inr (flt_sub own (np_mean others), Some m))))"

text \<open>The candidates of the range whose \<^verbatim>\<open>dic_score\<close> returned, with their scores, in order.\<close>

definition dic_scored :: "('x, 'm) hmmlearn \<Rightarrow> ('x, 'm) world \<Rightarrow> (pyfloat \<times> 'm option) list" where
  "dic_scored env w =
     List.map_filter (\<lambda>n. case fst (dic_score env n w) of Inl e \<Rightarrow> None | Inr v \<Rightarrow> Some v)
       [min_n_components (self w)..max_n_components (self w)]"

text \<open>
  The cross-validation score in the words of its description. The two folds \<^verbatim>\<open>KFold\<close>
  yields for \<open>n\<close> sequences split them at \<open>split_at n\<close>; \<open>combined\<close> is what
  \<^verbatim>\<open>combine_sequences\<close> returns for indices of the list. For one fold, \<open>cv_fold\<close> trains on
  the combined training sequences and scores the combined held-out sequences with the model
  just trained; \<open>cv_value\<close> averages the two fold scores and keeps the second fold's model.
  \<open>assigned\<close> is the selector after the assignment of a fold's training data to
  \<^verbatim>\<open>self.X, self.lengths\<close>, and \<open>cv_left\<close> the selector \<^verbatim>\<open>cv_score\<close> leaves behind: with the
  first fold's training data if the first fold failed, with the second's otherwise.
\<close>

definition combined :: "nat list \<Rightarrow> 'x list list \<Rightarrow> 'x list \<times> nat list" where
  "combined idxs seqs =
     (concat (map (\<lambda>idx. seqs ! idx) idxs), map (\<lambda>idx. length (seqs ! idx)) idxs)"

definition split_at :: "nat \<Rightarrow> nat" where
  "split_at n = (n + 1) div 2"

definition first_fold :: "nat \<Rightarrow> nat list \<times> nat list" where
  "first_fold n = ([split_at n..<n], [0..<split_at n])"

definition second_fold :: "nat \<Rightarrow> nat list \<times> nat list" where
  "second_fold n = ([0..<split_at n], [split_at n..<n])"

definition cv_fold :: "('x, 'm) hmmlearn \<Rightarrow> 'x ModelSelector \<Rightarrow> int \<Rightarrow> nat list \<times> nat list
    \<Rightarrow> exn + (pyfloat \<times> 'm option)" where
  "cv_fold env s n fd =
     (case fit env n (random_state s) (fst (combined (fst fd) (sequences s)))
             (snd (combined (fst fd) (sequences s))) of
        Inl e \<Rightarrow> Inl AttributeError
      | Inr m \<Rightarrow>
          (case score env m (fst (combined (snd fd) (sequences s)))
                  (snd (combined (snd fd) (sequences s))) of
             Inl e \<Rightarrow> Inl e
           | Inr sc \<Rightarrow> Inr (sc, Some m)))"

definition cv_value :: "('x, 'm) hmmlearn \<Rightarrow> 'x ModelSelector \<Rightarrow> int
    \<Rightarrow> exn + (pyfloat \<times> 'm option)" where
  "cv_value env s n =
     (if length (sequences s) < 2 then Inl ValueError
      else case cv_fold env s n (first_fold (length (sequences s))) of
             Inl e \<Rightarrow> Inl e
           | Inr r1 \<Rightarrow>
               (case cv_fold env s n (second_fold (length (sequences s))) of
                  Inl e \<Rightarrow> Inl e
                | Inr r2 \<Rightarrow> Inr (np_mean [fst r1, fst r2], snd r2)))"

definition assigned :: "'x ModelSelector \<Rightarrow> nat list \<times> nat list \<Rightarrow> 'x ModelSelector" where
  "assigned s fd =
     s\<lparr>X := fst (combined (fst fd) (sequences s)),
       lengths := snd (combined (fst fd) (sequences s))\<rparr>"

definition cv_left :: "('x, 'm) hmmlearn \<Rightarrow> 'x ModelSelector \<Rightarrow> int \<Rightarrow> 'x ModelSelector" where
  "cv_left env s n =
     (if length (sequences s) < 2 then s
      else if isl (cv_fold env s n (first_fold (length (sequences s))))
      then assigned s (first_fold (length (sequences s)))
      else assigned s (second_fold (length (sequences s))))"


subsection \<open>A small vocabulary to evaluate on\<close>

text \<open>
  A trainer whose model is the pair of the state count and the training data, which fails
  at the state counts listed in \<open>bad\<close>, and whose log-likelihood of data is the state count
  times the sum of the data; and a selector for the word \<open>A\<close> of a vocabulary of two words,
  with two sequences of one observation each.
\<close>

definition ex_env :: "int list \<Rightarrow> (int, int \<times> int list) hmmlearn" where
  "ex_env bad =
     \<lparr>fit = (\<lambda>n seed x ls. if n \<in> set bad then Inl LibraryError else Inr (n, x)),
      score = (\<lambda>m x ls. Inr (Fin (real_of_int (fst m * sum_list x))))\<rparr>"

text \<open>
  A trainer that never fails, whose log-likelihood is NaN for the models of the state counts
  listed in \<open>nans\<close> and as above for the others.
\<close>

definition ex_env_nan :: "int list \<Rightarrow> (int, int \<times> int list) hmmlearn" where
  "ex_env_nan nans =
     \<lparr>fit = (\<lambda>n seed x ls. Inr (n, x)),
      score = (\<lambda>m x ls. if fst m \<in> set nans then Inr NaN
                         else Inr (Fin (real_of_int (fst m * sum_list x))))\<rparr>"

definition ex_sel :: "int ModelSelector" where
  "ex_sel =
     \<lparr>words = [(''A'', [[1], [2]]), (''B'', [[1]])],
      hwords = [(''A'', ([1, 2], [1, 1])), (''B'', ([1], [1]))],
      sequences = [[1], [2]], X = [1, 2], lengths = [1, 1], this_word = ''A'',
      n_constant = 3, min_n_components = 2, max_n_components = 4, random_state = 14,
      verbose = False\<rparr>"

definition ex_world :: "int ModelSelector \<Rightarrow> (int, int \<times> int list) world" where
  "ex_world s = \<lparr>self = s, calls = []\<rparr>"

text \<open>
  A trainer that fails when the training data has fewer observations than states, as a
  k-means initialisation does, and a selector for a word of three sequences of one
  observation each.
\<close>

definition ex_env_small :: "(int, int \<times> int list) hmmlearn" where
  "ex_env_small =
     \<lparr>fit = (\<lambda>n seed x ls. if int (length x) < n then Inl LibraryError else Inr (n, x)),
      score = (\<lambda>m x ls. Inr (Fin (real_of_int (fst m * sum_list x))))\<rparr>"

definition ex_sel3 :: "int ModelSelector" where
  "ex_sel3 =
     \<lparr>words = [(''A'', [[1], [2], [3]]), (''B'', [[1]])],
      hwords = [(''A'', ([1, 2, 3], [1, 1, 1])), (''B'', ([1], [1]))],
      sequences = [[1], [2], [3]], X = [1, 2, 3], lengths = [1, 1, 1], this_word = ''A'',
      n_constant = 3, min_n_components = 2, max_n_components = 4, random_state = 14,
      verbose = False\<rparr>"



section \<open>Properties\<close>

lemmas py_defs = py_return_def py_raise_def py_bind_def py_try_def py_read_def py_lift_def

lemmas ex_defs = ex_env_def ex_sel_def ex_world_def

subsection \<open>Comparing floats, and the scan that keeps the best\<close>

lemma flt_less_irrefl: "\<not> flt_less a a"
  by (cases a) simp_all

lemma flt_less_trans: "flt_less a b \<Longrightarrow> flt_less b c \<Longrightarrow> flt_less a c"
  by (cases a; cases b; cases c) simp_all

lemma min_key_keep_best: "min_key cur items = keep_best flt_less cur items"
  by (induction items arbitrary: cur) simp_all

lemma keep_best_first:
  assumes irr0: "\<forall>a. \<not> better a a"
    and tr0: "\<forall>a b c. better a b \<longrightarrow> better b c \<longrightarrow> better a c"
  shows "keep_best better best cs = best \<or>
         (\<exists>pre post. cs = pre @ keep_best better best cs # post \<and>
            better (fst (keep_best better best cs)) (fst best) \<and>
            (\<forall>e\<in>set pre. fst e \<noteq> fst (keep_best better best cs)))"
proof (induction cs arbitrary: best)
  case Nil
  show ?case by simp
next
  case (Cons c cs)
  have irr: "\<And>a. \<not> better a a" using irr0 by blast
  have tr: "\<And>a b c. better a b \<Longrightarrow> better b c \<Longrightarrow> better a c" using tr0 by blast
  show ?case
  proof (cases "better (fst c) (fst best)")
    case True
    define r where "r = keep_best better c cs"
    have r: "keep_best better best (c # cs) = r" using True by (simp add: r_def)
    from Cons.IH[of c] have "r = c \<or>
         (\<exists>pre post. cs = pre @ r # post \<and> better (fst r) (fst c) \<and>
            (\<forall>e\<in>set pre. fst e \<noteq> fst r))"
      by (simp add: r_def)
    then have "\<exists>pre post. c # cs = pre @ r # post \<and> better (fst r) (fst best) \<and>
            (\<forall>e\<in>set pre. fst e \<noteq> fst r)"
    proof
      assume "r = c"
      then have "c # cs = [] @ r # cs \<and> better (fst r) (fst best) \<and>
            (\<forall>e\<in>set []. fst e \<noteq> fst r)"
        using True by simp
      then show ?thesis by (intro exI)
    next
      assume "\<exists>pre post. cs = pre @ r # post \<and> better (fst r) (fst c) \<and>
            (\<forall>e\<in>set pre. fst e \<noteq> fst r)"
      then obtain pre post where p: "cs = pre @ r # post" "better (fst r) (fst c)"
            "\<forall>e\<in>set pre. fst e \<noteq> fst r"
        by blast
      have "fst c \<noteq> fst r" using p(2) irr by auto
      moreover have "better (fst r) (fst best)" using p(2) True tr by blast
      ultimately have "c # cs = (c # pre) @ r # post \<and> better (fst r) (fst best) \<and>
            (\<forall>e\<in>set (c # pre). fst e \<noteq> fst r)"
        using p by simp
      then show ?thesis by (intro exI)
    qed
    then show ?thesis unfolding r by (rule disjI2)
  next
    case False
    define r where "r = keep_best better best cs"
    have r: "keep_best better best (c # cs) = r" using False by (simp add: r_def)
    from Cons.IH[of best] have "r = best \<or>
         (\<exists>pre post. cs = pre @ r # post \<and> better (fst r) (fst best) \<and>
            (\<forall>e\<in>set pre. fst e \<noteq> fst r))"
      by (simp add: r_def)
    then show ?thesis
    proof
      assume "r = best"
      then show ?thesis unfolding r by (rule disjI1)
    next
      assume "\<exists>pre post. cs = pre @ r # post \<and> better (fst r) (fst best) \<and>
            (\<forall>e\<in>set pre. fst e \<noteq> fst r)"
      then obtain pre post where p: "cs = pre @ r # post" "better (fst r) (fst best)"
            "\<forall>e\<in>set pre. fst e \<noteq> fst r"
        by blast
      have "fst c \<noteq> fst r" using p(2) False by auto
      then have "c # cs = (c # pre) @ r # post \<and> better (fst r) (fst best) \<and>
            (\<forall>e\<in>set (c # pre). fst e \<noteq> fst r)"
        using p by simp
      then have "\<exists>pre post. c # cs = pre @ r # post \<and> better (fst r) (fst best) \<and>
            (\<forall>e\<in>set pre. fst e \<noteq> fst r)"
        by (intro exI)
      then show ?thesis unfolding r by (rule disjI2)
    qed
  qed
qed

lemma keep_best_same_or_better:
  assumes irr: "\<forall>a. \<not> better a a"
    and tr: "\<forall>a b c. better a b \<longrightarrow> better b c \<longrightarrow> better a c"
  shows "keep_best better best cs = best \<or> better (fst (keep_best better best cs)) (fst best)"
  using keep_best_first[where better=better and best=best and cs=cs, OF irr tr] by blast

lemma keep_best_optimal:
  assumes irr0: "\<forall>a. \<not> better a a"
    and tr0: "\<forall>a b c. better a b \<longrightarrow> better b c \<longrightarrow> better a c"
  shows "\<not> better (fst best) (fst (keep_best better best cs)) \<and>
         (\<forall>c\<in>set cs. \<not> better (fst c) (fst (keep_best better best cs)))"
proof (induction cs arbitrary: best)
  case Nil
  show ?case using irr0 by simp
next
  case (Cons c cs)
  have tr: "\<And>a b c. better a b \<Longrightarrow> better b c \<Longrightarrow> better a c" using tr0 by blast
  show ?case
  proof (cases "better (fst c) (fst best)")
    case True
    define r where "r = keep_best better c cs"
    have r: "keep_best better best (c # cs) = r" using True by (simp add: r_def)
    have ih: "\<not> better (fst c) (fst r)" "\<forall>e\<in>set cs. \<not> better (fst e) (fst r)"
      using Cons.IH[of c] by (simp_all add: r_def)
    have "\<not> better (fst best) (fst r)"
    proof
      assume "better (fst best) (fst r)"
      with True have "better (fst c) (fst r)" by (rule tr)
      with ih(1) show False by simp
    qed
    with ih show ?thesis unfolding r by simp
  next
    case False
    define r where "r = keep_best better best cs"
    have r: "keep_best better best (c # cs) = r" using False by (simp add: r_def)
    have ih: "\<not> better (fst best) (fst r)" "\<forall>e\<in>set cs. \<not> better (fst e) (fst r)"
      using Cons.IH[of best] by (simp_all add: r_def)
    have rb: "r = best \<or> better (fst r) (fst best)"
      unfolding r_def by (rule keep_best_same_or_better[OF irr0 tr0])
    have "\<not> better (fst c) (fst r)"
    proof
      assume a: "better (fst c) (fst r)"
      from rb show False
      proof
        assume "r = best"
        with a False show False by simp
      next
        assume "better (fst r) (fst best)"
        with a have "better (fst c) (fst best)" by (rule tr)
        with False show False by simp
      qed
    qed
    with ih show ?thesis unfolding r by simp
  qed
qed

lemma keep_best_mem: "keep_best better best cs \<in> set (best # cs)"
  by (induction cs arbitrary: best) auto

lemma flt_less_order:
  "\<forall>a. \<not> flt_less a a" "\<forall>a b c. flt_less a b \<longrightarrow> flt_less b c \<longrightarrow> flt_less a c"
  "\<forall>a. \<not> (\<lambda>x y. flt_less y x) a a"
  "\<forall>a b c. (\<lambda>x y. flt_less y x) a b \<longrightarrow> (\<lambda>x y. flt_less y x) b c \<longrightarrow> (\<lambda>x y. flt_less y x) a c"
  using flt_less_irrefl flt_less_trans by blast+

lemma flt_less_not_NaN: "flt_less a b \<Longrightarrow> a \<noteq> NaN \<and> b \<noteq> NaN"
  by (cases a; cases b) simp_all

lemma flt_less_total: "a \<noteq> NaN \<Longrightarrow> b \<noteq> NaN \<Longrightarrow> \<not> flt_less a b \<Longrightarrow> b = a \<or> flt_less b a"
  by (cases a; cases b) auto

lemma keep_best_NaN: "keep_best flt_less (NaN, x) cs = (NaN, x)"
  by (induction cs) simp_all

lemma keep_best_not_NaN:
  "fst best \<noteq> NaN \<Longrightarrow> fst (keep_best flt_less best cs) \<noteq> NaN"
proof (induction cs arbitrary: best)
  case Nil
  then show ?case by simp
next
  case (Cons c cs)
  have "fst (if flt_less (fst c) (fst best) then c else best) \<noteq> NaN"
    using Cons.prems flt_less_not_NaN[of "fst c" "fst best"] by auto
  from Cons.IH[OF this] show ?case by simp
qed

subsection \<open>The trainer adapter and the constant selector\<close>

lemma base_model_eq:
  "base_model env n w =
     (Inr (trained env (self w) n),
      w\<lparr>calls := calls w @ [FitCall n (random_state (self w)) (X (self w)) (lengths (self w))]\<rparr>)"
  by (simp add: base_model_def py_defs call_fit_def trained_def split: sum.splits)

lemma constant_eq:
  "SelectorConstant_select env w =
     (Inr (trained env (self w) (n_constant (self w))),
      w\<lparr>calls := calls w @ [FitCall (n_constant (self w)) (random_state (self w))
                                    (X (self w)) (lengths (self w))]\<rparr>)"
  by (simp add: SelectorConstant_select_def py_defs base_model_eq)

text \<open>
  Claim C8. \<^verbatim>\<open>SelectorConstant.select()\<close> makes exactly one call to the library, a training
  at \<^verbatim>\<open>n_constant\<close> states on the data the selector holds, and returns what that training
  yields: the fitted model, or \<^verbatim>\<open>None\<close> when it raised. It makes no scoring call, leaves the
  selector as it was, and neither its result nor its calls depend on
  \<^verbatim>\<open>min_n_components\<close> and \<^verbatim>\<open>max_n_components\<close>.
\<close>

theorem constant_select_trains_once:
  "fst (SelectorConstant_select env w) =
     Inr (case fit env (n_constant (self w)) (random_state (self w)) (X (self w)) (lengths (self w))
          of Inl e \<Rightarrow> None | Inr m \<Rightarrow> Some m) \<and>
   new_calls w (snd (SelectorConstant_select env w)) =
     [FitCall (n_constant (self w)) (random_state (self w)) (X (self w)) (lengths (self w))] \<and>
   self (snd (SelectorConstant_select env w)) = self w \<and>
   fst (SelectorConstant_select env
          (w\<lparr>self := (self w)\<lparr>min_n_components := a, max_n_components := b\<rparr>\<rparr>)) =
     fst (SelectorConstant_select env w) \<and>
   new_calls (w\<lparr>self := (self w)\<lparr>min_n_components := a, max_n_components := b\<rparr>\<rparr>)
     (snd (SelectorConstant_select env
          (w\<lparr>self := (self w)\<lparr>min_n_components := a, max_n_components := b\<rparr>\<rparr>))) =
     new_calls w (snd (SelectorConstant_select env w))"
  by (simp add: constant_eq new_calls_def trained_def)

subsection \<open>No exception leaves \<^verbatim>\<open>select\<close>\<close>

lemma bic_try_returns:
  "\<exists>sb w'. py_try (bic_try_body env n acc) (py_return acc) w = (Inr sb, w')"
  by (simp add: py_try_def py_return_def split: prod.splits sum.splits)

lemma bic_loop_returns: "\<exists>sb w'. bic_loop env ns acc w = (Inr sb, w')"
proof (induction ns arbitrary: acc w)
  case Nil
  show ?case by (simp add: py_return_def)
next
  case (Cons n ns)
  obtain sb w1 where 1: "py_try (bic_try_body env n acc) (py_return acc) w = (Inr sb, w1)"
    using bic_try_returns by blast
  from Cons.IH[of sb w1] show ?case by (simp add: py_bind_def 1)
qed

lemma bic_select_returns: "\<exists>r w'. SelectorBIC_select env w = (Inr r, w')"
proof -
  obtain sb w1
    where 1: "bic_loop env [min_n_components (self w)..max_n_components (self w)] [] w = (Inr sb, w1)"
    using bic_loop_returns by blast
  show ?thesis
    by (cases sb) (simp_all add: SelectorBIC_select_def py_defs 1 calc_best_score_bic_def)
qed

lemma try_base_model_returns:
  "\<exists>r w'. py_try p (py_bind (py_read f) (\<lambda>nc. base_model env nc)) w = (Inr r, w')"
  by (simp add: py_try_def py_bind_def py_read_def base_model_eq split: prod.splits sum.splits)

text \<open>
  Claim C2. For each of the four strategies, whatever the library does (any \<open>fit\<close> and
  \<open>score\<close>, raising or not) and whatever the selector holds, \<^verbatim>\<open>select()\<close> returns a value, a
  fitted model or \<^verbatim>\<open>None\<close>: its result is never an exception.
\<close>

theorem select_never_raises:
  "(\<exists>r w'. SelectorConstant_select env w = (Inr r, w')) \<and>
   (\<exists>r w'. SelectorBIC_select env w = (Inr r, w')) \<and>
   (\<exists>r w'. SelectorDIC_select env w = (Inr r, w')) \<and>
   (\<exists>r w'. SelectorCV_select env w = (Inr r, w'))"
  unfolding SelectorDIC_select_def SelectorCV_select_def
  using constant_eq[of env w] bic_select_returns[of env w] try_base_model_returns
  by blast

subsection \<open>SelectorBIC\<close>

lemma bic_step:
  "py_try (bic_try_body env n acc) (py_return acc) w =
     (Inr (acc @ (case bic_candidate env (self w) n of None \<Rightarrow> [] | Some e \<Rightarrow> [e])),
      w\<lparr>calls := calls w @ bic_calls env (self w) n\<rparr>)"
  by (simp add: bic_try_body_def py_defs base_model_eq call_score_def trained_def
      bic_candidate_def bic_calls_def Let_def split: sum.splits)

lemma bic_loop_eq:
  "bic_loop env ns acc w =
     (Inr (acc @ List.map_filter (bic_candidate env (self w)) ns),
      w\<lparr>calls := calls w @ concat (map (bic_calls env (self w)) ns)\<rparr>)"
proof (induction ns arbitrary: acc w)
  case Nil
  show ?case by (simp add: py_return_def)
next
  case (Cons n ns)
  show ?case
    by (simp add: py_bind_def bic_step Cons.IH split: option.splits)
qed

lemma bic_select_eq:
  "SelectorBIC_select env w =
     (Inr (case bic_entries env (self w) of [] \<Rightarrow> None | e # es \<Rightarrow> snd (min_key e es)),
      w\<lparr>calls := calls w @ concat (map (bic_calls env (self w))
                     [min_n_components (self w)..max_n_components (self w)])\<rparr>)"
  by (simp add: SelectorBIC_select_def py_defs bic_loop_eq bic_entries_def
      calc_best_score_bic_def split: list.splits)

lemma fit_states_append: "fit_states (cs @ ds) = fit_states cs @ fit_states ds"
  by (induction cs rule: fit_states.induct) simp_all

lemma fit_states_bic_calls: "fit_states (concat (map (bic_calls env s) ns)) = ns"
  by (induction ns) (simp_all add: bic_calls_def fit_states_append split: sum.splits)

lemma new_calls_append: "calls w' = calls w @ cs \<Longrightarrow> new_calls w w' = cs"
  by (simp add: new_calls_def)

lemma in_map_filter: "y \<in> set (List.map_filter f xs) \<longleftrightarrow> (\<exists>x\<in>set xs. f x = Some y)"
  by (induction xs) (auto split: option.splits)

lemma bic_candidate_Some:
  "bic_candidate env s n = Some (sc, mo) \<Longrightarrow>
     \<exists>m ll. fit env n (random_state s) (X s) (lengths s) = Inr m \<and>
       score env m (X s) (lengths s) = Inr ll \<and> mo = Some m \<and>
       sc = calc_score ll (calc_deg_lib n (int (sum_list (lengths s)))) (int (sum_list (lengths s)))"
  unfolding bic_candidate_def by (simp split: sum.splits)

lemma bic_entry_model: "(sc, mo) \<in> set (bic_entries env s) \<Longrightarrow> \<exists>m. mo = Some m"
  unfolding bic_entries_def in_map_filter using bic_candidate_Some by blast

text \<open>
  Claim C4, as amended. \<^verbatim>\<open>SelectorBIC.select()\<close> trains every state count of the closed
  range \<^verbatim>\<open>[min_n_components, max_n_components]\<close> once, in order, and nothing else (no training
  at \<^verbatim>\<open>n_constant\<close>); a candidate whose training or scoring raises contributes no entry and
  the search goes on. With no entry the result is \<^verbatim>\<open>None\<close>. When the score of the first entry
  is NaN, the result is the model of that first entry, whatever follows: no score compares
  less than NaN. When the score of the first entry is not NaN, the result is the model of an
  entry whose score is not NaN and is less than or equal to every entry's score that is not
  NaN: the minimum of the scores that are numbers.
\<close>

theorem bic_select_minimum:
  "fit_states (new_calls w (snd (SelectorBIC_select env w))) =
     [min_n_components (self w)..max_n_components (self w)] \<and>
   self (snd (SelectorBIC_select env w)) = self w \<and>
   (bic_entries env (self w) = [] \<longrightarrow> fst (SelectorBIC_select env w) = Inr None) \<and>
   (\<forall>e es. bic_entries env (self w) = e # es \<longrightarrow>
      (fst e = NaN \<longrightarrow> fst (SelectorBIC_select env w) = Inr (snd e)) \<and>
      (fst e \<noteq> NaN \<longrightarrow>
         (\<exists>sc m. (sc, Some m) \<in> set (e # es) \<and>
            fst (SelectorBIC_select env w) = Inr (Some m) \<and>
            sc \<noteq> NaN \<and>
            (\<forall>c\<in>set (e # es). \<not> flt_less (fst c) sc) \<and>
            (\<forall>c\<in>set (e # es). fst c \<noteq> NaN \<longrightarrow> sc = fst c \<or> flt_less sc (fst c)) \<and>
            (\<forall>c\<in>set (e # es). \<forall>a b. sc = Fin a \<longrightarrow> fst c = Fin b \<longrightarrow> a \<le> b))))"
proof (intro conjI impI allI)
  show "fit_states (new_calls w (snd (SelectorBIC_select env w))) =
     [min_n_components (self w)..max_n_components (self w)]"
    by (simp add: bic_select_eq new_calls_def fit_states_bic_calls)
  show "self (snd (SelectorBIC_select env w)) = self w"
    by (simp add: bic_select_eq)
  show "fst (SelectorBIC_select env w) = Inr None" if "bic_entries env (self w) = []"
    using that by (simp add: bic_select_eq)
next
  fix e es
  assume es: "bic_entries env (self w) = e # es" and nan: "fst e = NaN"
  have "keep_best flt_less (fst e, snd e) es = (fst e, snd e)"
    unfolding nan by (rule keep_best_NaN)
  then show "fst (SelectorBIC_select env w) = Inr (snd e)"
    by (simp add: bic_select_eq es min_key_keep_best)
next
  fix e es
  assume es: "bic_entries env (self w) = e # es" and nn: "fst e \<noteq> NaN"
  define r where "r = keep_best flt_less e es"
  have res: "fst (SelectorBIC_select env w) = Inr (snd r)"
    by (simp add: bic_select_eq es r_def min_key_keep_best)
  have mem: "r \<in> set (e # es)"
    unfolding r_def by (rule keep_best_mem)
  have rn: "fst r \<noteq> NaN"
    unfolding r_def using nn by (rule keep_best_not_NaN)
  have opt: "\<forall>c\<in>set (e # es). \<not> flt_less (fst c) (fst r)"
    using keep_best_optimal[OF flt_less_order(1,2), of e es] unfolding r_def by simp
  have tot: "\<forall>c\<in>set (e # es). fst c \<noteq> NaN \<longrightarrow> fst r = fst c \<or> flt_less (fst r) (fst c)"
    using opt rn flt_less_total by blast
  have fin: "\<forall>c\<in>set (e # es). \<forall>a b. fst r = Fin a \<longrightarrow> fst c = Fin b \<longrightarrow> a \<le> b"
    using opt by (metis flt_less.simps(1) not_le)
  obtain m where m: "snd r = Some m"
    using bic_entry_model[of "fst r" "snd r" env "self w"] mem es by auto
  have "(fst r, Some m) \<in> set (e # es)"
    using mem m by (metis prod.collapse)
  with res m rn opt tot fin
  have "(fst r, Some m) \<in> set (e # es) \<and>
            fst (SelectorBIC_select env w) = Inr (Some m) \<and>
            fst r \<noteq> NaN \<and>
            (\<forall>c\<in>set (e # es). \<not> flt_less (fst c) (fst r)) \<and>
            (\<forall>c\<in>set (e # es). fst c \<noteq> NaN \<longrightarrow> fst r = fst c \<or> flt_less (fst r) (fst c)) \<and>
            (\<forall>c\<in>set (e # es). \<forall>a b. fst r = Fin a \<longrightarrow> fst c = Fin b \<longrightarrow> a \<le> b)"
    by simp
  then show "\<exists>sc m. (sc, Some m) \<in> set (e # es) \<and>
            fst (SelectorBIC_select env w) = Inr (Some m) \<and>
            sc \<noteq> NaN \<and>
            (\<forall>c\<in>set (e # es). \<not> flt_less (fst c) sc) \<and>
            (\<forall>c\<in>set (e # es). fst c \<noteq> NaN \<longrightarrow> sc = fst c \<or> flt_less sc (fst c)) \<and>
            (\<forall>c\<in>set (e # es). \<forall>a b. sc = Fin a \<longrightarrow> fst c = Fin b \<longrightarrow> a \<le> b)"
    by (intro exI)
qed

lemma ex_bic_entries:
  "bic_entries (ex_env [3]) (ex_sel\<lparr>X := [5], lengths := [1]\<rparr>) =
     [(Fin (- 20), Some (2, [5])), (Fin (- 40), Some (4, [5]))]"
  by (simp add: ex_defs bic_entries_def bic_candidate_def calc_score_def
      calc_deg_lib_def np_log_def)

theorem bic_select_minimum_witness:
  "bic_entries (ex_env [3]) (ex_sel\<lparr>X := [5], lengths := [1]\<rparr>) =
     [(Fin (- 20), Some (2, [5])), (Fin (- 40), Some (4, [5]))] \<and>
   fst (SelectorBIC_select (ex_env [3]) (ex_world (ex_sel\<lparr>X := [5], lengths := [1]\<rparr>))) =
     Inr (Some (4, [5])) \<and>
   fit_states (new_calls (ex_world (ex_sel\<lparr>X := [5], lengths := [1]\<rparr>))
     (snd (SelectorBIC_select (ex_env [3]) (ex_world (ex_sel\<lparr>X := [5], lengths := [1]\<rparr>))))) =
     [2, 3, 4]"
proof -
  let ?w = "ex_world (ex_sel\<lparr>X := [5], lengths := [1]\<rparr>)"
  have w: "self ?w = ex_sel\<lparr>X := [5], lengths := [1]\<rparr>" by (simp add: ex_world_def)
  note t = bic_select_minimum[where env = "ex_env [3]" and w = ?w]
  from t have calls: "fit_states (new_calls ?w (snd (SelectorBIC_select (ex_env [3]) ?w))) =
      [min_n_components (self ?w)..max_n_components (self ?w)]"
    by blast
  have "fst (SelectorBIC_select (ex_env [3]) ?w) = Inr (Some (4, [5]))"
    unfolding bic_select_eq fst_conv w ex_bic_entries by simp
  moreover have "[min_n_components (self ?w)..max_n_components (self ?w)] = [2, 3, 4]"
    by (simp add: ex_defs upto.simps)
  ultimately show ?thesis using calls ex_bic_entries by simp
qed

text \<open>
  The claim as stated fails when the first candidate scored has a NaN log-likelihood: its BIC
  score is NaN, \<^verbatim>\<open>min\<close> keeps it, and \<^verbatim>\<open>select()\<close> returns the model of 2 states although
  the entries of 3 and 4 states have the scores -30 and -40.
\<close>

theorem bic_leading_nan_counterexample:
  "bic_entries (ex_env_nan [2]) (ex_sel\<lparr>X := [5], lengths := [1]\<rparr>) =
     [(NaN, Some (2, [5])), (Fin (- 30), Some (3, [5])), (Fin (- 40), Some (4, [5]))] \<and>
   fst (SelectorBIC_select (ex_env_nan [2]) (ex_world (ex_sel\<lparr>X := [5], lengths := [1]\<rparr>))) =
     Inr (Some (2, [5]))"
  by (simp add: ex_env_nan_def ex_sel_def ex_world_def bic_select_eq bic_entries_def
      bic_candidate_def calc_score_def calc_deg_lib_def np_log_def)

lemma bic_try_body_Inr:
  assumes "bic_try_body env n acc w = (Inr sb, w')"
  shows "\<exists>m ll. fit env n (random_state (self w)) (X (self w)) (lengths (self w)) = Inr m \<and>
           score env m (X (self w)) (lengths (self w)) = Inr ll \<and>
           sb = acc @ [(calc_score ll (calc_deg_lib n (int (sum_list (lengths (self w)))))
                          (int (sum_list (lengths (self w)))), Some m)]"
  using assms
  by (auto simp: bic_try_body_def py_defs base_model_eq call_score_def trained_def Let_def
      split: sum.splits)

text \<open>
  Claim C3. The free-parameter count is \<open>num_states\<^sup>2 + 2 * num_states * num_data_points - 1\<close>
  for all integers, and 308 at 3 states and 50 data points. For a real log-likelihood and a
  positive number of data points the score is \<open>-2 * log_likelihood + p * ln num_data_points\<close>.
  The entry the loop body appends for a candidate is that score of the model's
  log-likelihood on the word's data, with \<open>num_data_points\<close> the sum of \<^verbatim>\<open>self.lengths\<close>.
\<close>

theorem bic_free_parameters_and_score:
  "calc_deg_lib num_states num_data_points =
     num_states ^ 2 + 2 * num_states * num_data_points - 1 \<and>
   calc_deg_lib 3 50 = 308 \<and>
   (0 < num_data_points \<longrightarrow>
      calc_score (Fin ll) p num_data_points =
        Fin (- 2 * ll + real_of_int p * ln (real_of_int num_data_points))) \<and>
   (bic_try_body env n acc w = (Inr sb, w') \<longrightarrow>
      (\<exists>m l. fit env n (random_state (self w)) (X (self w)) (lengths (self w)) = Inr m \<and>
         score env m (X (self w)) (lengths (self w)) = Inr l \<and>
         sb = acc @ [(calc_score l (calc_deg_lib n (int (sum_list (lengths (self w)))))
                        (int (sum_list (lengths (self w)))), Some m)]))"
  using bic_try_body_Inr[of env n acc w sb w']
  by (simp add: calc_deg_lib_def calc_score_def np_log_def)

theorem bic_free_parameters_and_score_witness:
  "calc_deg_lib 3 50 = 308 \<and>
   (0::int) < 50 \<and>
   calc_score (Fin (- 100)) 10 50 = Fin (200 + 10 * ln 50) \<and>
   bic_try_body (ex_env []) 2 [] (ex_world (ex_sel\<lparr>X := [5], lengths := [1]\<rparr>)) =
     (Inr [(Fin (- 20), Some (2, [5]))],
      (ex_world (ex_sel\<lparr>X := [5], lengths := [1]\<rparr>))
        \<lparr>calls := [FitCall 2 14 [5] [1], ScoreCall (2, [5]) [5] [1]]\<rparr>)"
  using bic_free_parameters_and_score[where num_states = 3 and num_data_points = 50
      and ll = "- 100" and p = 10 and env = "ex_env []" and n = 2 and acc = "[]"
      and w = "ex_world (ex_sel\<lparr>X := [5], lengths := [1]\<rparr>)"
      and sb = "[(Fin (- 20), Some (2, [5]))]"
      and w' = "(ex_world (ex_sel\<lparr>X := [5], lengths := [1]\<rparr>))
        \<lparr>calls := [FitCall 2 14 [5] [1], ScoreCall (2, [5]) [5] [1]]\<rparr>"]
  by (simp add: ex_defs bic_try_body_def py_defs base_model_eq call_score_def trained_def
      calc_score_def calc_deg_lib_def np_log_def)

subsection \<open>SelectorDIC\<close>

lemma is_other_simp: "is_other this (word, x, ls) = (word \<noteq> this)"
  by (simp add: is_other_def)

lemma dic_others_Some:
  "\<exists>cs. dic_others env (Some m) this items acc w =
     (case score_each env m (filter (is_other this) items) of
        Inl e \<Rightarrow> Inl e | Inr scs \<Rightarrow> Inr (acc @ scs),
      w\<lparr>calls := calls w @ cs\<rparr>) \<and> fit_states cs = []"
proof (induction items arbitrary: acc w)
  case Nil
  have "dic_others env (Some m) this [] acc w = (Inr (acc @ []), w\<lparr>calls := calls w @ []\<rparr>)"
    by (simp add: py_return_def)
  then show ?case by (intro exI[of _ "[]"]) simp
next
  case (Cons item items)
  obtain word x ls where item: "item = (word, x, ls)" by (cases item) auto
  have "\<exists>cs. dic_others env (Some m) this ((word, x, ls) # items) acc w =
     (case score_each env m (filter (is_other this) ((word, x, ls) # items)) of
        Inl e \<Rightarrow> Inl e | Inr scs \<Rightarrow> Inr (acc @ scs),
      w\<lparr>calls := calls w @ cs\<rparr>) \<and> fit_states cs = []"
  proof (cases "word \<noteq> this")
    case False
    with Cons.IH[of acc w] show ?thesis by (simp add: is_other_simp)
  next
    case True
    show ?thesis
    proof (cases "score env m x ls")
      case (Inl e)
      have "dic_others env (Some m) this ((word, x, ls) # items) acc w =
           (Inl e, w\<lparr>calls := calls w @ [ScoreCall m x ls]\<rparr>)"
        using True Inl by (simp add: py_bind_def call_score_def)
      then show ?thesis using True Inl
        by (intro exI[of _ "[ScoreCall m x ls]"]) (simp add: is_other_simp)
    next
      case (Inr sc)
      let ?w1 = "w\<lparr>calls := calls w @ [ScoreCall m x ls]\<rparr>"
      from Cons.IH[of "acc @ [sc]" ?w1] obtain cs where
        cs: "dic_others env (Some m) this items (acc @ [sc]) ?w1 =
           (case score_each env m (filter (is_other this) items) of
              Inl e \<Rightarrow> Inl e | Inr scs \<Rightarrow> Inr ((acc @ [sc]) @ scs),
            ?w1\<lparr>calls := calls ?w1 @ cs\<rparr>)" "fit_states cs = []"
        by blast
      have "dic_others env (Some m) this ((word, x, ls) # items) acc w =
           (case score_each env m (filter (is_other this) ((word, x, ls) # items)) of
              Inl e \<Rightarrow> Inl e | Inr scs \<Rightarrow> Inr (acc @ scs),
            w\<lparr>calls := calls w @ (ScoreCall m x ls # cs)\<rparr>)"
        using True Inr cs(1)
        by (simp add: py_bind_def call_score_def is_other_simp split: sum.splits)
      then show ?thesis using cs(2) by (intro exI[of _ "ScoreCall m x ls # cs"]) simp
    qed
  qed
  then show ?case unfolding item .
qed

lemma dic_others_None:
  "dic_others env None this items acc w =
     (if filter (is_other this) items = [] then Inr acc else Inl AttributeError, w)"
  by (induction items arbitrary: acc)
    (auto simp: py_return_def py_bind_def call_score_def is_other_simp)

lemma dic_score_eq:
  "\<exists>cs. dic_score env n w = (dic_value env (self w) n, w\<lparr>calls := calls w @ cs\<rparr>) \<and>
        fit_states cs = [n]"
proof (cases "fit env n (random_state (self w)) (X (self w)) (lengths (self w))")
  case (Inl e)
  let ?f = "FitCall n (random_state (self w)) (X (self w)) (lengths (self w))"
  have "dic_score env n w = (dic_value env (self w) n, w\<lparr>calls := calls w @ [?f]\<rparr>)"
    using Inl
    by (simp add: dic_score_def dic_value_def py_bind_def py_read_def base_model_eq trained_def
        dic_others_None call_score_def)
  then show ?thesis by (intro exI[of _ "[?f]"]) simp
next
  case (Inr m)
  let ?f = "FitCall n (random_state (self w)) (X (self w)) (lengths (self w))"
  let ?w1 = "w\<lparr>calls := calls w @ [?f]\<rparr>"
  from dic_others_Some[of env m "this_word (self w)" "hwords (self w)" "[]" ?w1]
  obtain cs where cs0: "dic_others env (Some m) (this_word (self w)) (hwords (self w)) [] ?w1 =
     (case score_each env m (filter (is_other (this_word (self w))) (hwords (self w))) of
        Inl e \<Rightarrow> Inl e | Inr scs \<Rightarrow> Inr ([] @ scs),
      ?w1\<lparr>calls := calls ?w1 @ cs\<rparr>)" and cs2: "fit_states cs = []"
    by blast
  have cs: "dic_others env (Some m) (this_word (self w)) (hwords (self w)) [] ?w1 =
     (case score_each env m (other_words (self w)) of Inl e \<Rightarrow> Inl e | Inr scs \<Rightarrow> Inr scs,
      w\<lparr>calls := calls w @ ?f # cs\<rparr>)" "fit_states cs = []"
    using cs0 cs2 by (simp_all add: other_words_def cong: sum.case_cong)
  show ?thesis
  proof (cases "score_each env m (other_words (self w))")
    case (Inl e)
    have "dic_score env n w = (dic_value env (self w) n, w\<lparr>calls := calls w @ (?f # cs)\<rparr>)"
      using Inr Inl cs(1)
      by (simp add: dic_score_def dic_value_def py_bind_def py_read_def base_model_eq trained_def)
    then show ?thesis using cs(2) by (intro exI[of _ "?f # cs"]) simp
  next
    case others: (Inr scs)
    let ?sc = "ScoreCall m (X (self w)) (lengths (self w))"
    have "dic_score env n w =
        (dic_value env (self w) n, w\<lparr>calls := calls w @ (?f # cs @ [?sc])\<rparr>)"
      using Inr others cs(1)
      by (simp add: dic_score_def dic_value_def py_bind_def py_read_def py_return_def
          base_model_eq trained_def call_score_def split: sum.splits)
    then show ?thesis using cs(2)
      by (intro exI[of _ "?f # cs @ [?sc]"]) (simp add: fit_states_append)
  qed
qed

lemma dic_score_fst: "fst (dic_score env n w) = dic_value env (self w) n"
  using dic_score_eq[of env n w] by auto

lemma dic_loop_ok:
  "map (dic_value env (self w)) ns = map Inr vs \<Longrightarrow>
     \<exists>cs. dic_loop env ns best w =
            (Inr (keep_best (\<lambda>a b. flt_less b a) best vs), w\<lparr>calls := calls w @ cs\<rparr>) \<and>
          fit_states cs = ns"
proof (induction ns arbitrary: vs best w)
  case Nil
  then have "dic_loop env [] best w =
      (Inr (keep_best (\<lambda>a b. flt_less b a) best vs), w\<lparr>calls := calls w @ []\<rparr>)"
    by (simp add: py_return_def)
  then show ?case by (intro exI[of _ "[]"]) simp
next
  case (Cons n ns)
  from Cons.prems obtain v vs' where vs: "vs = v # vs'" "dic_value env (self w) n = Inr v"
    "map (dic_value env (self w)) ns = map Inr vs'"
    by (cases vs) auto
  obtain cs1 where cs1: "dic_score env n w = (Inr v, w\<lparr>calls := calls w @ cs1\<rparr>)"
    "fit_states cs1 = [n]"
    using dic_score_eq[of env n w] vs(2) by auto
  let ?w1 = "w\<lparr>calls := calls w @ cs1\<rparr>"
  let ?b = "if flt_less (fst best) (fst v) then v else best"
  have "map (dic_value env (self ?w1)) ns = map Inr vs'" using vs(3) by simp
  from Cons.IH[OF this, of ?b] obtain cs2 where cs2:
    "dic_loop env ns ?b ?w1 =
       (Inr (keep_best (\<lambda>a b. flt_less b a) ?b vs'), ?w1\<lparr>calls := calls ?w1 @ cs2\<rparr>)"
    "fit_states cs2 = ns"
    by blast
  have "dic_loop env (n # ns) best w = dic_loop env ns ?b ?w1"
    by (cases v) (simp add: py_bind_def cs1(1))
  then have "dic_loop env (n # ns) best w =
      (Inr (keep_best (\<lambda>a b. flt_less b a) best vs), w\<lparr>calls := calls w @ (cs1 @ cs2)\<rparr>)"
    using cs2(1) vs(1) by simp
  then show ?case using cs1(2) cs2(2)
    by (intro exI[of _ "cs1 @ cs2"]) (simp add: fit_states_append)
qed

lemma dic_loop_fail:
  "map (dic_value env (self w)) pre = map Inr vs \<Longrightarrow> dic_value env (self w) k = Inl e \<Longrightarrow>
     \<exists>cs. dic_loop env (pre @ k # post) best w = (Inl e, w\<lparr>calls := calls w @ cs\<rparr>) \<and>
          fit_states cs = pre @ [k]"
proof (induction pre arbitrary: vs best w)
  case Nil
  obtain cs1 where cs1: "dic_score env k w = (Inl e, w\<lparr>calls := calls w @ cs1\<rparr>)"
    "fit_states cs1 = [k]"
    using dic_score_eq[of env k w] Nil.prems(2) by auto
  have "dic_loop env ([] @ k # post) best w = (Inl e, w\<lparr>calls := calls w @ cs1\<rparr>)"
    by (simp add: py_bind_def cs1(1))
  then show ?case using cs1(2) by (intro exI[of _ cs1]) simp
next
  case (Cons n pre)
  from Cons.prems(1) obtain v vs' where vs: "vs = v # vs'" "dic_value env (self w) n = Inr v"
    "map (dic_value env (self w)) pre = map Inr vs'"
    by (cases vs) auto
  obtain cs1 where cs1: "dic_score env n w = (Inr v, w\<lparr>calls := calls w @ cs1\<rparr>)"
    "fit_states cs1 = [n]"
    using dic_score_eq[of env n w] vs(2) by auto
  let ?w1 = "w\<lparr>calls := calls w @ cs1\<rparr>"
  let ?b = "if flt_less (fst best) (fst v) then v else best"
  have 1: "map (dic_value env (self ?w1)) pre = map Inr vs'" using vs(3) by simp
  have 2: "dic_value env (self ?w1) k = Inl e" using Cons.prems(2) by simp
  from Cons.IH[OF 1 2, of ?b] obtain cs2 where cs2:
    "dic_loop env (pre @ k # post) ?b ?w1 = (Inl e, ?w1\<lparr>calls := calls ?w1 @ cs2\<rparr>)"
    "fit_states cs2 = pre @ [k]"
    by blast
  have "dic_loop env ((n # pre) @ k # post) best w = dic_loop env (pre @ k # post) ?b ?w1"
    by (cases v) (simp add: py_bind_def cs1(1))
  then have "dic_loop env ((n # pre) @ k # post) best w =
      (Inl e, w\<lparr>calls := calls w @ (cs1 @ cs2)\<rparr>)"
    using cs2(1) by simp
  then show ?case using cs1(2) cs2(2)
    by (intro exI[of _ "cs1 @ cs2"]) (simp add: fit_states_append)
qed

lemma dic_select_ok:
  assumes "map (dic_value env (self w)) [min_n_components (self w)..max_n_components (self w)] =
      map Inr vs"
  shows "\<exists>cs. SelectorDIC_select env w =
            (Inr (snd (keep_best (\<lambda>a b. flt_less b a) (NInf, None) vs)),
             w\<lparr>calls := calls w @ cs\<rparr>) \<and>
          fit_states cs = [min_n_components (self w)..max_n_components (self w)]"
proof -
  from dic_loop_ok[OF assms, of "(NInf, None)"] obtain cs where cs:
    "dic_loop env [min_n_components (self w)..max_n_components (self w)] (NInf, None) w =
       (Inr (keep_best (\<lambda>a b. flt_less b a) (NInf, None) vs), w\<lparr>calls := calls w @ cs\<rparr>)"
    "fit_states cs = [min_n_components (self w)..max_n_components (self w)]"
    by blast
  have "SelectorDIC_select env w =
      (Inr (snd (keep_best (\<lambda>a b. flt_less b a) (NInf, None) vs)), w\<lparr>calls := calls w @ cs\<rparr>)"
    by (simp add: SelectorDIC_select_def py_defs cs(1) split: prod.splits)
  with cs(2) show ?thesis by blast
qed

lemma dic_select_fail:
  assumes "[min_n_components (self w)..max_n_components (self w)] = pre @ k # post"
    and "map (dic_value env (self w)) pre = map Inr vs"
    and "dic_value env (self w) k = Inl e"
  shows "\<exists>cs. SelectorDIC_select env w =
            (Inr (trained env (self w) (n_constant (self w))), w\<lparr>calls := calls w @ cs\<rparr>) \<and>
          fit_states cs = pre @ [k, n_constant (self w)]"
proof -
  from dic_loop_fail[OF assms(2,3), of post "(NInf, None)"] obtain cs where cs:
    "dic_loop env (pre @ k # post) (NInf, None) w = (Inl e, w\<lparr>calls := calls w @ cs\<rparr>)"
    "fit_states cs = pre @ [k]"
    by blast
  let ?f = "FitCall (n_constant (self w)) (random_state (self w)) (X (self w)) (lengths (self w))"
  have "SelectorDIC_select env w =
      (Inr (trained env (self w) (n_constant (self w))), w\<lparr>calls := calls w @ (cs @ [?f])\<rparr>)"
    by (simp add: SelectorDIC_select_def py_defs assms(1) cs(1) base_model_eq)
  moreover have "fit_states (cs @ [?f]) = pre @ [k, n_constant (self w)]"
    by (simp add: fit_states_append cs(2))
  ultimately show ?thesis by blast
qed

lemma first_failure:
  assumes "n \<in> set ns" "isl (f n)"
  shows "\<exists>pre k post vs. ns = pre @ k # post \<and> map f pre = map Inr vs \<and> isl (f k)"
proof -
  from assms have "\<exists>x\<in>set ns. isl (f x)" by blast
  from split_list_first_prop[OF this] obtain pre k post where
    s: "ns = pre @ k # post" "isl (f k)" "\<forall>y\<in>set pre. \<not> isl (f y)"
    by blast
  have "map f pre = map Inr (map (\<lambda>y. projr (f y)) pre)"
    using s(3) by (induction pre) simp_all
  with s show ?thesis by blast
qed

lemma map_all_Inr:
  "\<forall>x\<in>set xs. \<exists>v. f x = Inr v \<Longrightarrow>
     map f xs = map Inr (List.map_filter (\<lambda>x. case f x of Inl e \<Rightarrow> None | Inr v \<Rightarrow> Some v) xs)"
  by (induction xs) auto

lemma all_Inr_not_isl: "map f xs = map Inr vs \<Longrightarrow> \<forall>y\<in>set xs. \<not> isl (f y)"
  by (induction xs arbitrary: vs) auto

lemma flt_sub_NaN: "flt_sub a NaN = NaN"
  by (cases a) (simp_all add: flt_sub_def)

lemma dic_value_Inr:
  assumes "dic_value env s n = Inr (sc, mo)"
  shows "\<exists>m own others. mo = Some m \<and>
           fit env n (random_state s) (X s) (lengths s) = Inr m \<and>
           score env m (X s) (lengths s) = Inr own \<and>
           score_each env m (other_words s) = Inr others \<and>
           sc = flt_sub own (np_mean others)"
  using assms unfolding dic_value_def by (simp split: sum.splits)

lemma dic_value_no_others:
  assumes "dic_value env s n = Inr v" "other_words s = []"
  shows "fst v = NaN"
proof -
  obtain sc mo where v: "v = (sc, mo)" by (cases v)
  from dic_value_Inr[OF assms(1)[unfolded v]] assms(2) show ?thesis
    by (auto simp: v np_mean_def flt_sub_NaN)
qed

lemma dic_scored_values:
  assumes "\<forall>n\<in>set [min_n_components (self w)..max_n_components (self w)].
             \<exists>v. fst (dic_score env n w) = Inr v"
  shows "map (dic_value env (self w)) [min_n_components (self w)..max_n_components (self w)] =
           map Inr (dic_scored env w)"
  using map_all_Inr[of "[min_n_components (self w)..max_n_components (self w)]"
      "dic_value env (self w)"] assms
  by (simp add: dic_scored_def dic_score_fst)

lemma dic_scored_mem:
  "v \<in> set (dic_scored env w) \<Longrightarrow> \<exists>n. dic_value env (self w) n = Inr v"
proof -
  assume "v \<in> set (dic_scored env w)"
  then obtain n where
    n: "(case dic_value env (self w) n of Inl e \<Rightarrow> None | Inr v \<Rightarrow> Some v) = Some v"
    unfolding dic_scored_def in_map_filter dic_score_fst by blast
  then have "dic_value env (self w) n = Inr v"
    by (cases "dic_value env (self w) n") simp_all
  then show ?thesis by blast
qed

lemma ex_dic_value:
  "dic_value (ex_env bad) ex_sel n =
     (if n \<in> set bad then Inl AttributeError else Inr (Fin (real_of_int (2 * n)), Some (n, [1, 2])))"
  by (simp add: ex_defs dic_value_def other_words_def is_other_def
      np_mean_def flt_sub_def)

text \<open>
  Claim C5, as amended. The score \<^verbatim>\<open>dic_score\<close> returns is the model's log-likelihood on this
  word's data minus the mean of its log-likelihoods on the other words of the index (NaN
  when there is no other word: the mean of nothing). When no candidate of the range fails
  and some candidate's score compares greater than \<open>-inf\<close>, \<^verbatim>\<open>select()\<close> returns the model of
  a candidate whose score compares greater than \<open>-inf\<close> (so it is not NaN), that no
  candidate's score exceeds, and that is greater than or equal to every candidate's score
  that is not NaN. When no candidate's score compares greater than \<open>-inf\<close> (all NaN or
  \<open>-inf\<close>, or an empty range) it returns \<^verbatim>\<open>None\<close>, and so it does for a vocabulary of one word.
\<close>

theorem dic_select_maximum:
  assumes ok: "\<forall>n\<in>set [min_n_components (self w)..max_n_components (self w)].
                 \<exists>v. fst (dic_score env n w) = Inr v"
  shows "(\<forall>n sc mo. fst (dic_score env n w) = Inr (sc, mo) \<longrightarrow>
            (\<exists>m own others. mo = Some m \<and>
               fit env n (random_state (self w)) (X (self w)) (lengths (self w)) = Inr m \<and>
               score env m (X (self w)) (lengths (self w)) = Inr own \<and>
               score_each env m (other_words (self w)) = Inr others \<and>
               sc = flt_sub own (np_mean others))) \<and>
         ((\<exists>v\<in>set (dic_scored env w). flt_less NInf (fst v)) \<longrightarrow>
            (\<exists>sc m. (sc, Some m) \<in> set (dic_scored env w) \<and>
               fst (SelectorDIC_select env w) = Inr (Some m) \<and>
               flt_less NInf sc \<and>
               (\<forall>v\<in>set (dic_scored env w). \<not> flt_less sc (fst v)) \<and>
               (\<forall>v\<in>set (dic_scored env w). fst v \<noteq> NaN \<longrightarrow> fst v = sc \<or> flt_less (fst v) sc) \<and>
               (\<forall>v\<in>set (dic_scored env w). \<forall>a b. sc = Fin a \<longrightarrow> fst v = Fin b \<longrightarrow> b \<le> a))) \<and>
         ((\<forall>v\<in>set (dic_scored env w). \<not> flt_less NInf (fst v)) \<longrightarrow>
            fst (SelectorDIC_select env w) = Inr None) \<and>
         (other_words (self w) = [] \<longrightarrow> fst (SelectorDIC_select env w) = Inr None)"
proof -
  define vs where "vs = dic_scored env w"
  define r where "r = keep_best (\<lambda>a b. flt_less b a) (NInf, None) vs"
  have res: "fst (SelectorDIC_select env w) = Inr (snd r)"
    using dic_select_ok[OF dic_scored_values[OF ok]] unfolding r_def vs_def by auto
  have opt: "\<forall>c\<in>set vs. \<not> flt_less (fst r) (fst c)"
    using keep_best_optimal[OF flt_less_order(3,4), of "(NInf, None)" vs] unfolding r_def by simp
  have first: "r = (NInf, None) \<or> (r \<in> set vs \<and> flt_less NInf (fst r))"
    using keep_best_mem[of "\<lambda>a b. flt_less b a" "(NInf, None)" vs]
      keep_best_same_or_better[OF flt_less_order(3,4), of "(NInf, None)" vs]
    unfolding r_def by auto
  have formula: "\<forall>n sc mo. fst (dic_score env n w) = Inr (sc, mo) \<longrightarrow>
            (\<exists>m own others. mo = Some m \<and>
               fit env n (random_state (self w)) (X (self w)) (lengths (self w)) = Inr m \<and>
               score env m (X (self w)) (lengths (self w)) = Inr own \<and>
               score_each env m (other_words (self w)) = Inr others \<and>
               sc = flt_sub own (np_mean others))"
    using dic_value_Inr[of env "self w"] by (simp add: dic_score_fst)
  have some: "\<exists>sc m. (sc, Some m) \<in> set vs \<and>
               fst (SelectorDIC_select env w) = Inr (Some m) \<and>
               flt_less NInf sc \<and>
               (\<forall>v\<in>set vs. \<not> flt_less sc (fst v)) \<and>
               (\<forall>v\<in>set vs. fst v \<noteq> NaN \<longrightarrow> fst v = sc \<or> flt_less (fst v) sc) \<and>
               (\<forall>v\<in>set vs. \<forall>a b. sc = Fin a \<longrightarrow> fst v = Fin b \<longrightarrow> b \<le> a)"
    if "\<exists>v\<in>set vs. flt_less NInf (fst v)"
  proof -
    from that opt have "r \<noteq> (NInf, None)" by auto
    with first have mem: "r \<in> set vs" and gt: "flt_less NInf (fst r)" by blast+
    then obtain n where "dic_value env (self w) n = Inr r"
      using dic_scored_mem[of r env w] unfolding vs_def by blast
    then obtain m where m: "snd r = Some m"
      using dic_value_Inr[of env "self w" n "fst r" "snd r"] by auto
    have rn: "fst r \<noteq> NaN" using gt flt_less_not_NaN by blast
    have 1: "(fst r, Some m) \<in> set vs" using mem m by (metis prod.collapse)
    have 2: "\<forall>v\<in>set vs. \<forall>a b. fst r = Fin a \<longrightarrow> fst v = Fin b \<longrightarrow> b \<le> a"
      using opt by (metis flt_less.simps(1) not_le)
    have 3: "\<forall>v\<in>set vs. fst v \<noteq> NaN \<longrightarrow> fst v = fst r \<or> flt_less (fst v) (fst r)"
      using opt rn flt_less_total by blast
    from 1 2 3 opt res m gt
    have "(fst r, Some m) \<in> set vs \<and>
               fst (SelectorDIC_select env w) = Inr (Some m) \<and>
               flt_less NInf (fst r) \<and>
               (\<forall>v\<in>set vs. \<not> flt_less (fst r) (fst v)) \<and>
               (\<forall>v\<in>set vs. fst v \<noteq> NaN \<longrightarrow> fst v = fst r \<or> flt_less (fst v) (fst r)) \<and>
               (\<forall>v\<in>set vs. \<forall>a b. fst r = Fin a \<longrightarrow> fst v = Fin b \<longrightarrow> b \<le> a)"
      by simp
    then show ?thesis by (intro exI)
  qed
  have none: "fst (SelectorDIC_select env w) = Inr None"
    if "\<forall>v\<in>set vs. \<not> flt_less NInf (fst v)"
  proof -
    from first that have "r = (NInf, None)" by blast
    with res show ?thesis by simp
  qed
  have alone: "fst (SelectorDIC_select env w) = Inr None" if "other_words (self w) = []"
  proof -
    have "\<forall>v\<in>set vs. fst v = NaN"
      using dic_scored_mem[of _ env w] dic_value_no_others[OF _ that] unfolding vs_def by blast
    then have "\<forall>v\<in>set vs. \<not> flt_less NInf (fst v)" by simp
    then show ?thesis by (rule none)
  qed
  from formula some none alone show ?thesis unfolding vs_def by blast
qed

theorem dic_select_maximum_witness:
  "dic_scored (ex_env []) (ex_world ex_sel) =
     [(Fin 4, Some (2, [1, 2])), (Fin 6, Some (3, [1, 2])), (Fin 8, Some (4, [1, 2]))] \<and>
   fst (SelectorDIC_select (ex_env []) (ex_world ex_sel)) = Inr (Some (4, [1, 2]))"
proof -
  have w: "self (ex_world ex_sel) = ex_sel" by (simp add: ex_world_def)
  have range: "[min_n_components ex_sel..max_n_components ex_sel] = [2, 3, 4]"
    by (simp add: ex_sel_def upto.simps)
  have scored: "dic_scored (ex_env []) (ex_world ex_sel) =
     [(Fin 4, Some (2, [1, 2])), (Fin 6, Some (3, [1, 2])), (Fin 8, Some (4, [1, 2]))]"
    by (simp add: dic_scored_def dic_score_fst w range ex_dic_value)
  have ok: "\<forall>n\<in>set [min_n_components (self (ex_world ex_sel))..
                      max_n_components (self (ex_world ex_sel))].
              \<exists>v. fst (dic_score (ex_env []) n (ex_world ex_sel)) = Inr v"
    by (simp add: dic_score_fst w range ex_dic_value)
  have some: "\<exists>v\<in>set (dic_scored (ex_env []) (ex_world ex_sel)). flt_less NInf (fst v)"
    by (simp add: scored)
  from dic_select_maximum[OF ok, THEN conjunct2, THEN conjunct1, THEN mp, OF some]
  obtain sc m where
    r: "(sc, Some m) \<in> set (dic_scored (ex_env []) (ex_world ex_sel))"
       "fst (SelectorDIC_select (ex_env []) (ex_world ex_sel)) = Inr (Some m)"
       "\<forall>v\<in>set (dic_scored (ex_env []) (ex_world ex_sel)). \<not> flt_less sc (fst v)"
    by blast
  from r(1,3) have "m = (4, [1, 2])" unfolding scored by auto
  with r(2) scored show ?thesis by simp
qed

text \<open>
  The claim as stated fails for a vocabulary that holds this word only: training and every
  scoring succeed, the score is NaN, and \<^verbatim>\<open>select()\<close> returns \<^verbatim>\<open>None\<close>, no model.
\<close>

theorem dic_single_word_counterexample:
  "fst (dic_score (ex_env []) 2
         (ex_world (ex_sel\<lparr>hwords := [(''A'', ([1, 2], [1, 1]))], max_n_components := 2\<rparr>))) =
     Inr (NaN, Some (2, [1, 2])) \<and>
   fst (SelectorDIC_select (ex_env [])
         (ex_world (ex_sel\<lparr>hwords := [(''A'', ([1, 2], [1, 1]))], max_n_components := 2\<rparr>))) =
     Inr None"
  by (simp add: ex_defs SelectorDIC_select_def dic_score_def py_defs base_model_eq trained_def
      call_score_def np_mean_def flt_sub_def upto.simps)

lemma dic_value_fit_fails:
  "isl (fit env n (random_state s) (X s) (lengths s)) \<Longrightarrow> isl (dic_value env s n)"
  by (auto simp: dic_value_def isl_def)

text \<open>
  Claim C6. If some candidate of the range fails, by its training (then scoring \<^verbatim>\<open>None\<close>
  raises) or by a scoring that raises, \<^verbatim>\<open>SelectorDIC.select()\<close> returns what
  \<^verbatim>\<open>SelectorConstant.select()\<close> returns on the same selector: the model trained at
  \<^verbatim>\<open>n_constant\<close> states on the word's data, or \<^verbatim>\<open>None\<close> when that training raises. The search
  stops at the first failing candidate \<open>k\<close>: \<open>k\<close> fails, no candidate of the range before it
  does, and the state counts trained are those of the range up to \<open>k\<close>, then \<^verbatim>\<open>n_constant\<close>;
  no candidate after \<open>k\<close> is trained. The selector is left unchanged.
\<close>

theorem dic_select_fallback:
  assumes range: "n \<in> set [min_n_components (self w)..max_n_components (self w)]"
    and fails: "isl (fst (dic_score env n w)) \<or>
                isl (fit env n (random_state (self w)) (X (self w)) (lengths (self w)))"
  shows "fst (SelectorDIC_select env w) = fst (SelectorConstant_select env w) \<and>
         fst (SelectorDIC_select env w) =
           Inr (case fit env (n_constant (self w)) (random_state (self w)) (X (self w))
                       (lengths (self w))
                of Inl e \<Rightarrow> None | Inr m \<Rightarrow> Some m) \<and>
         self (snd (SelectorDIC_select env w)) = self w \<and>
         (\<exists>pre k post.
            [min_n_components (self w)..max_n_components (self w)] = pre @ k # post \<and>
            isl (fst (dic_score env k w)) \<and>
            (\<forall>j\<in>set pre. \<not> isl (fst (dic_score env j w))) \<and>
            fit_states (new_calls w (snd (SelectorDIC_select env w))) =
              pre @ [k, n_constant (self w)])"
proof -
  from fails have "isl (dic_value env (self w) n)"
    using dic_value_fit_fails[of env n "self w"] by (auto simp: dic_score_fst)
  from first_failure[where f = "dic_value env (self w)", OF range this] obtain pre k post vs where
    s: "[min_n_components (self w)..max_n_components (self w)] = pre @ k # post"
       "map (dic_value env (self w)) pre = map Inr vs" "isl (dic_value env (self w) k)"
    by blast
  from s(3) obtain e where e: "dic_value env (self w) k = Inl e" by (auto simp: isl_def)
  from dic_select_fail[OF s(1,2) e] obtain cs where cs:
    "SelectorDIC_select env w =
       (Inr (trained env (self w) (n_constant (self w))), w\<lparr>calls := calls w @ cs\<rparr>)"
    "fit_states cs = pre @ [k, n_constant (self w)]"
    by blast
  have "fit_states (new_calls w (snd (SelectorDIC_select env w))) = pre @ [k, n_constant (self w)]"
    by (simp add: cs new_calls_def)
  moreover have "isl (fst (dic_score env k w))"
    using s(3) by (simp add: dic_score_fst)
  moreover have "\<forall>j\<in>set pre. \<not> isl (fst (dic_score env j w))"
    using all_Inr_not_isl[OF s(2)] by (simp add: dic_score_fst)
  ultimately have "[min_n_components (self w)..max_n_components (self w)] = pre @ k # post \<and>
            isl (fst (dic_score env k w)) \<and>
            (\<forall>j\<in>set pre. \<not> isl (fst (dic_score env j w))) \<and>
            fit_states (new_calls w (snd (SelectorDIC_select env w))) =
              pre @ [k, n_constant (self w)]"
    using s(1) by simp
  then have "\<exists>pre k post.
            [min_n_components (self w)..max_n_components (self w)] = pre @ k # post \<and>
            isl (fst (dic_score env k w)) \<and>
            (\<forall>j\<in>set pre. \<not> isl (fst (dic_score env j w))) \<and>
            fit_states (new_calls w (snd (SelectorDIC_select env w))) =
              pre @ [k, n_constant (self w)]"
    by (intro exI)
  then show ?thesis by (simp add: cs(1) constant_eq trained_def)
qed

theorem dic_select_fallback_witness:
  "3 \<in> set [min_n_components (self (ex_world ex_sel))..max_n_components (self (ex_world ex_sel))] \<and>
   fst (dic_score (ex_env [3]) 3 (ex_world ex_sel)) = Inl AttributeError \<and>
   fst (SelectorDIC_select (ex_env [3]) (ex_world ex_sel)) = Inr None \<and>
   fst (SelectorConstant_select (ex_env [3]) (ex_world ex_sel)) = Inr None \<and>
   fit_states (new_calls (ex_world ex_sel)
     (snd (SelectorDIC_select (ex_env [3]) (ex_world ex_sel)))) = [2, 3, 3] \<and>
   fst (SelectorDIC_select (ex_env [4]) (ex_world ex_sel)) = Inr (Some (3, [1, 2])) \<and>
   fst (SelectorConstant_select (ex_env [4]) (ex_world ex_sel)) = Inr (Some (3, [1, 2])) \<and>
   fit_states (new_calls (ex_world ex_sel)
     (snd (SelectorDIC_select (ex_env [4]) (ex_world ex_sel)))) = [2, 3, 4, 3]"
proof -
  have w: "self (ex_world ex_sel) = ex_sel" by (simp add: ex_world_def)
  have range: "[min_n_components ex_sel..max_n_components ex_sel] = [2, 3, 4]"
    by (simp add: ex_sel_def upto.simps)
  have nc: "n_constant ex_sel = 3" by (simp add: ex_sel_def)
  have 1: "3 \<in> set [min_n_components (self (ex_world ex_sel))..
                    max_n_components (self (ex_world ex_sel))]"
    "4 \<in> set [min_n_components (self (ex_world ex_sel))..
                    max_n_components (self (ex_world ex_sel))]"
    by (simp_all add: w range)
  have 2: "fst (dic_score (ex_env [3]) 3 (ex_world ex_sel)) = Inl AttributeError"
    "fst (dic_score (ex_env [4]) 4 (ex_world ex_sel)) = Inl AttributeError"
    by (simp_all add: dic_score_fst w ex_dic_value)
  then have 3: "isl (fst (dic_score (ex_env [3]) 3 (ex_world ex_sel))) \<or>
      isl (fit (ex_env [3]) 3 (random_state (self (ex_world ex_sel)))
             (X (self (ex_world ex_sel))) (lengths (self (ex_world ex_sel))))"
    "isl (fst (dic_score (ex_env [4]) 4 (ex_world ex_sel))) \<or>
      isl (fit (ex_env [4]) 4 (random_state (self (ex_world ex_sel)))
             (X (self (ex_world ex_sel))) (lengths (self (ex_world ex_sel))))"
    by simp_all
  have 4: "fst (SelectorConstant_select (ex_env [3]) (ex_world ex_sel)) = Inr None"
    "fst (SelectorConstant_select (ex_env [4]) (ex_world ex_sel)) = Inr (Some (3, [1, 2]))"
    by (simp_all add: constant_eq trained_def ex_defs)
  have trace: "fit_states (new_calls (ex_world ex_sel)
       (snd (SelectorDIC_select (ex_env bad) (ex_world ex_sel)))) = ks"
    if t: "\<exists>pre k post. [2, 3, 4] = pre @ k # post \<and>
            isl (fst (dic_score (ex_env bad) k (ex_world ex_sel))) \<and>
            (\<forall>j\<in>set pre. \<not> isl (fst (dic_score (ex_env bad) j (ex_world ex_sel)))) \<and>
            fit_states (new_calls (ex_world ex_sel)
              (snd (SelectorDIC_select (ex_env bad) (ex_world ex_sel)))) = pre @ [k, 3]"
      and ks: "ks = (if 2 \<in> set bad then [2, 3] else if 3 \<in> set bad then [2, 3, 3]
                     else [2, 3, 4, 3])"
    for bad ks
  proof -
    from t obtain pre k post where
      p: "[2, 3, 4] = pre @ k # post"
         "isl (fst (dic_score (ex_env bad) k (ex_world ex_sel)))"
         "\<forall>j\<in>set pre. \<not> isl (fst (dic_score (ex_env bad) j (ex_world ex_sel)))"
         "fit_states (new_calls (ex_world ex_sel)
              (snd (SelectorDIC_select (ex_env bad) (ex_world ex_sel)))) = pre @ [k, 3]"
      by blast
    have f: "isl (fst (dic_score (ex_env bad) j (ex_world ex_sel))) = (j \<in> set bad)" for j
      by (simp add: dic_score_fst w ex_dic_value)
    from p(1) have "pre = [] \<and> k = 2 \<or> pre = [2] \<and> k = 3 \<or> pre = [2, 3] \<and> k = 4"
      by (auto simp: Cons_eq_append_conv)
    with p(2,3) have "pre @ [k, 3] = ks" unfolding f ks by auto
    with p(4) show ?thesis by simp
  qed
  note a = dic_select_fallback[OF 1(1) 3(1)]
  note b = dic_select_fallback[OF 1(2) 3(2)]
  from a have a1: "fst (SelectorDIC_select (ex_env [3]) (ex_world ex_sel)) =
      fst (SelectorConstant_select (ex_env [3]) (ex_world ex_sel))"
    by (rule conjunct1)
  from b have b1: "fst (SelectorDIC_select (ex_env [4]) (ex_world ex_sel)) =
      fst (SelectorConstant_select (ex_env [4]) (ex_world ex_sel))"
    by (rule conjunct1)
  have a2: "fit_states (new_calls (ex_world ex_sel)
       (snd (SelectorDIC_select (ex_env [3]) (ex_world ex_sel)))) = [2, 3, 3]"
    using a[THEN conjunct2, THEN conjunct2, THEN conjunct2] unfolding w range nc
    by (rule trace) simp
  have b2: "fit_states (new_calls (ex_world ex_sel)
       (snd (SelectorDIC_select (ex_env [4]) (ex_world ex_sel)))) = [2, 3, 4, 3]"
    using b[THEN conjunct2, THEN conjunct2, THEN conjunct2] unfolding w range nc
    by (rule trace) simp
  from 1 2 4 a1 a2 b1 b2 show ?thesis by simp
qed

subsection \<open>SelectorCV\<close>

lemma filter_ge_upt: "h \<le> n \<Longrightarrow> filter (\<lambda>j. h \<le> j) [0..<n] = [h..<n]"
proof (induction n)
  case 0
  then show ?case by simp
next
  case (Suc n)
  show ?case
  proof (cases "h = Suc n")
    case True
    have "filter (\<lambda>j. Suc n \<le> j) [0..<n] = []" by (simp add: filter_empty_conv)
    with True show ?thesis by simp
  next
    case False
    with Suc.prems have "h \<le> n" by simp
    with Suc.IH show ?thesis by simp
  qed
qed

lemma filter_less_upt: "h \<le> n \<Longrightarrow> filter (\<lambda>j. j < h) [0..<n] = [0..<h]"
proof (induction n)
  case 0
  then show ?case by simp
next
  case (Suc n)
  show ?case
  proof (cases "h = Suc n")
    case True
    have "filter (\<lambda>j. j < Suc n) [0..<n] = [0..<n]" by (simp add: filter_id_conv)
    with True show ?thesis by simp
  next
    case False
    with Suc.prems have "h \<le> n" by simp
    with Suc.IH show ?thesis by simp
  qed
qed

lemma split_at_le: "split_at n \<le> n"
  unfolding split_at_def by presburger

lemma split_at_less: "2 \<le> n \<Longrightarrow> split_at n < n \<and> 0 < split_at n"
  unfolding split_at_def by presburger

lemma fold_start_2: "fold_start 2 n 0 = 0" "fold_start 2 n (Suc 0) = split_at n"
  "fold_start 2 n (Suc (Suc 0)) = n"
  unfolding fold_start_def split_at_def by simp presburger+

lemma KFold_split_2:
  "KFold_split 2 n = (if n < 2 then Inl ValueError else Inr [first_fold n, second_fold n])"
proof (cases "n < 2")
  case True
  then show ?thesis by (simp add: KFold_split_def)
next
  case False
  have u: "[0..<2] = [0, Suc 0]" by (simp add: upt_rec)
  have 1: "filter (\<lambda>j. j < 0 \<or> split_at n \<le> j) [0..<n] = [split_at n..<n]"
    using filter_ge_upt[OF split_at_le[of n]] by simp
  have 2: "filter (\<lambda>j. j < split_at n \<or> n \<le> j) [0..<n] = [0..<split_at n]"
  proof -
    have "filter (\<lambda>j. j < split_at n \<or> n \<le> j) [0..<n] = filter (\<lambda>j. j < split_at n) [0..<n]"
      by (rule filter_cong) auto
    with filter_less_upt[OF split_at_le[of n]] show ?thesis by simp
  qed
  have "KFold_split 2 n =
      Inr [(filter (\<lambda>j. j < fold_start 2 n 0 \<or> fold_start 2 n (Suc 0) \<le> j) [0..<n],
            [fold_start 2 n 0..<fold_start 2 n (Suc 0)]),
           (filter (\<lambda>j. j < fold_start 2 n (Suc 0) \<or> fold_start 2 n (Suc (Suc 0)) \<le> j) [0..<n],
            [fold_start 2 n (Suc 0)..<fold_start 2 n (Suc (Suc 0))])]"
    using False unfolding KFold_split_def u by simp
  also have "\<dots> = Inr [first_fold n, second_fold n]"
    unfolding fold_start_2 1 2 first_fold_def second_fold_def ..
  finally show ?thesis using False by simp
qed

lemma combine_in_range:
  "\<forall>i\<in>set idxs. i < length seqs \<Longrightarrow> combine_sequences idxs seqs = Inr (combined idxs seqs)"
  by (simp add: combine_sequences_def combined_def list_all_iff)

lemma combine_folds:
  "combine_sequences (fst (first_fold (length seqs))) seqs =
     Inr (combined (fst (first_fold (length seqs))) seqs)"
  "combine_sequences (snd (first_fold (length seqs))) seqs =
     Inr (combined (snd (first_fold (length seqs))) seqs)"
  "combine_sequences (fst (second_fold (length seqs))) seqs =
     Inr (combined (fst (second_fold (length seqs))) seqs)"
  "combine_sequences (snd (second_fold (length seqs))) seqs =
     Inr (combined (snd (second_fold (length seqs))) seqs)"
  using split_at_le[of "length seqs"]
  by (auto intro!: combine_in_range simp: first_fold_def second_fold_def)

lemma cv_folds_Cons:
  "cv_folds env n (f # folds) acc =
     py_bind (py_read (\<lambda>w. sequences (self w))) (\<lambda>seqs.
     py_bind (py_lift (combine_sequences (fst f) seqs)) (\<lambda>train.
     py_bind (assign_X_lengths train) (\<lambda>_.
     py_bind (base_model env n) (\<lambda>model.
     py_bind (py_lift (combine_sequences (snd f) seqs)) (\<lambda>(x, l).
     py_bind (call_score env model x l) (\<lambda>sc.
       cv_folds env n folds (fst acc @ [sc], Some model)))))))"
  by (cases f) simp

lemmas cv_unfold = cv_score_def KFold_split_2 cv_folds_Cons cv_folds.simps(1) py_defs
  combine_folds assign_X_lengths_def base_model_eq trained_def call_score_def case_prod_beta

lemma cv_score_short:
  "length (sequences (self w)) < 2 \<Longrightarrow> cv_score env n w = (Inl ValueError, w)"
  by (simp add: cv_score_def KFold_split_2 py_defs)

lemma cv_score_fst: "fst (cv_score env n w) = cv_value env (self w) n"
  by (simp add: cv_unfold cv_value_def cv_fold_def split: sum.splits)

lemma cv_score_self: "self (snd (cv_score env n w)) = cv_left env (self w) n"
  by (simp add: cv_unfold cv_left_def cv_fold_def assigned_def split: sum.splits)

lemma cv_score_calls:
  "\<exists>cs. calls (snd (cv_score env n w)) = calls w @ cs \<and>
        fit_states cs =
          (if length (sequences (self w)) < 2 then []
           else if isl (cv_fold env (self w) n (first_fold (length (sequences (self w)))))
           then [n] else [n, n])"
  by (simp add: cv_unfold cv_fold_def split: sum.splits)

lemma cv_fold_cong:
  "sequences s' = sequences s \<Longrightarrow> random_state s' = random_state s \<Longrightarrow>
     cv_fold env s' n f = cv_fold env s n f"
  by (simp add: cv_fold_def cong: sum.case_cong)

lemma cv_value_cong:
  "sequences s' = sequences s \<Longrightarrow> random_state s' = random_state s \<Longrightarrow>
     cv_value env s' n = cv_value env s n"
  by (simp add: cv_value_def cv_fold_cong[of s' s] cong: sum.case_cong)

lemma cv_value_cv_left: "cv_value env (cv_left env s k) n = cv_value env s n"
  by (rule cv_value_cong) (simp_all add: cv_left_def assigned_def)

lemma cv_value_cv_left_fun: "cv_value env (cv_left env s k) = cv_value env s"
  by (rule ext) (rule cv_value_cv_left)

lemma cv_left_fields:
  "sequences (cv_left env s n) = sequences s"
  "random_state (cv_left env s n) = random_state s"
  "n_constant (cv_left env s n) = n_constant s"
  "min_n_components (cv_left env s n) = min_n_components s"
  "max_n_components (cv_left env s n) = max_n_components s"
  by (simp_all add: cv_left_def assigned_def)

lemma assigned_cv_left: "assigned (cv_left env s k) f = assigned s f"
  by (simp add: cv_left_def assigned_def)

lemma cv_left_idem: "cv_left env (cv_left env s k) n = cv_left env s n"
  unfolding cv_left_def[of env "cv_left env s k" n] cv_left_fields assigned_cv_left
    cv_fold_cong[OF cv_left_fields(1,2)]
  by (simp add: cv_left_def[of env s n] cv_left_def[of env s k])

lemma cv_loop_step:
  assumes "cv_value env (self w) n = Inr v"
  shows "cv_loop env (n # ns) best w =
           cv_loop env ns (if flt_less (fst v) (fst best) then v else best)
             (snd (cv_score env n w))"
proof -
  define w1 where "w1 = snd (cv_score env n w)"
  have "cv_score env n w = (Inr v, w1)"
    using cv_score_fst[of env n w] assms unfolding w1_def by (metis prod.collapse)
  then have "cv_loop env (n # ns) best w =
           cv_loop env ns (if flt_less (fst v) (fst best) then v else best) w1"
    by (cases v) (simp add: py_bind_def)
  then show ?thesis unfolding w1_def .
qed

lemma cv_loop_stop:
  assumes "cv_value env (self w) n = Inl e"
  shows "cv_loop env (n # ns) best w = (Inl e, snd (cv_score env n w))"
proof -
  define w1 where "w1 = snd (cv_score env n w)"
  have "cv_score env n w = (Inl e, w1)"
    using cv_score_fst[of env n w] assms unfolding w1_def by (metis prod.collapse)
  then have "cv_loop env (n # ns) best w = (Inl e, w1)"
    by (simp add: py_bind_def)
  then show ?thesis unfolding w1_def .
qed

lemma cv_loop_ok:
  "map (cv_value env (self w)) ns = map Inr vs \<Longrightarrow>
     fst (cv_loop env ns best w) = Inr (keep_best flt_less best vs) \<and>
     self (snd (cv_loop env ns best w)) =
       (if ns = [] then self w else cv_left env (self w) (last ns))"
proof (induction ns arbitrary: vs best w)
  case Nil
  then show ?case by (simp add: py_return_def)
next
  case (Cons n ns)
  from Cons.prems obtain v vs' where vs: "vs = v # vs'" "cv_value env (self w) n = Inr v"
    "map (cv_value env (self w)) ns = map Inr vs'"
    by (cases vs) auto
  let ?w1 = "snd (cv_score env n w)"
  let ?b = "if flt_less (fst v) (fst best) then v else best"
  have s1: "self ?w1 = cv_left env (self w) n" by (rule cv_score_self)
  have "map (cv_value env (self ?w1)) ns = map Inr vs'"
    using vs(3) by (simp add: s1 cv_value_cv_left cv_value_cv_left_fun)
  from Cons.IH[OF this, of ?b] show ?case
    by (simp add: cv_loop_step[OF vs(2)] vs(1) s1 cv_left_idem del: cv_loop.simps)
qed

lemma cv_loop_fail:
  "map (cv_value env (self w)) pre = map Inr vs \<Longrightarrow> cv_value env (self w) k = Inl e \<Longrightarrow>
     fst (cv_loop env (pre @ k # post) best w) = Inl e \<and>
     self (snd (cv_loop env (pre @ k # post) best w)) = cv_left env (self w) k"
proof (induction pre arbitrary: vs best w)
  case Nil
  from cv_loop_stop[OF Nil.prems(2), of post best] show ?case
    by (simp add: cv_score_self del: cv_loop.simps)
next
  case (Cons n pre)
  from Cons.prems(1) obtain v vs' where vs: "vs = v # vs'" "cv_value env (self w) n = Inr v"
    "map (cv_value env (self w)) pre = map Inr vs'"
    by (cases vs) auto
  let ?w1 = "snd (cv_score env n w)"
  let ?b = "if flt_less (fst v) (fst best) then v else best"
  have s1: "self ?w1 = cv_left env (self w) n" by (rule cv_score_self)
  have 1: "map (cv_value env (self ?w1)) pre = map Inr vs'"
    using vs(3) by (simp add: s1 cv_value_cv_left cv_value_cv_left_fun)
  have 2: "cv_value env (self ?w1) k = Inl e"
    using Cons.prems(2) by (simp add: s1 cv_value_cv_left cv_value_cv_left_fun)
  from Cons.IH[OF 1 2, of ?b] show ?case
    by (simp add: cv_loop_step[OF vs(2)] s1 cv_left_idem del: cv_loop.simps)
qed

lemma cv_select_ok:
  assumes "map (cv_value env (self w)) [min_n_components (self w)..max_n_components (self w)] =
      map Inr vs"
  shows "fst (SelectorCV_select env w) = Inr (snd (keep_best flt_less (PInf, None) vs)) \<and>
         self (snd (SelectorCV_select env w)) =
           (if max_n_components (self w) < min_n_components (self w) then self w
            else cv_left env (self w) (max_n_components (self w)))"
proof -
  let ?range = "[min_n_components (self w)..max_n_components (self w)]"
  obtain r w' where rw: "cv_loop env ?range (PInf, None) w = (r, w')"
    by (cases "cv_loop env ?range (PInf, None) w")
  from cv_loop_ok[OF assms, of "(PInf, None)"] rw
  have r: "r = Inr (keep_best flt_less (PInf, None) vs)"
    and w': "self w' = (if ?range = [] then self w else cv_left env (self w) (last ?range))"
    by simp_all
  have l: "\<not> max_n_components (self w) < min_n_components (self w) \<Longrightarrow>
      last ?range = max_n_components (self w)"
    by (simp add: upto_rec2)
  show ?thesis using l
    by (simp add: SelectorCV_select_def py_defs rw r w' split: prod.splits)
qed

lemma cv_select_fail:
  assumes "[min_n_components (self w)..max_n_components (self w)] = pre @ k # post"
    and "map (cv_value env (self w)) pre = map Inr vs"
    and "cv_value env (self w) k = Inl e"
  shows "fst (SelectorCV_select env w) =
           Inr (trained env (cv_left env (self w) k) (n_constant (self w))) \<and>
         self (snd (SelectorCV_select env w)) = cv_left env (self w) k"
proof -
  obtain r w' where rw: "cv_loop env (pre @ k # post) (PInf, None) w = (r, w')"
    by (cases "cv_loop env (pre @ k # post) (PInf, None) w")
  from cv_loop_fail[OF assms(2,3), of post "(PInf, None)"] rw
  have r: "r = Inl e" and w': "self w' = cv_left env (self w) k"
    by simp_all
  show ?thesis
    by (simp add: SelectorCV_select_def py_defs assms(1) rw r w' base_model_eq cv_left_fields)
qed

subsection \<open>The cross-validation score and the selection\<close>







lemma ex_folds:
  "first_fold (Suc (Suc 0)) = ([Suc 0], [0])"
  "second_fold (Suc (Suc 0)) = ([0], [Suc 0])"
  "first_fold (Suc (Suc (Suc 0))) = ([2], [0, Suc 0])"
  "second_fold (Suc (Suc (Suc 0))) = ([0, Suc 0], [2])"
  by (simp_all add: first_fold_def second_fold_def split_at_def upt_rec)

lemmas ex_cv_defs = cv_value_def cv_fold_def ex_folds combined_def cv_left_def assigned_def
  trained_def np_mean_def

lemma ex_cv_value:
  "cv_value (ex_env []) ex_sel n = Inr (Fin (real_of_int (3 * n) / 2), Some (n, [1]))"
  by (simp add: ex_defs ex_cv_defs)


subsection \<open>What \<^verbatim>\<open>select\<close> leaves in the selector\<close>

lemma dic_select_self: "self (snd (SelectorDIC_select env w)) = self w"
proof (cases "\<exists>n\<in>set [min_n_components (self w)..max_n_components (self w)].
                isl (dic_value env (self w) n)")
  case True
  then obtain n where n: "n \<in> set [min_n_components (self w)..max_n_components (self w)]"
    "isl (dic_value env (self w) n)"
    by blast
  from first_failure[where f = "dic_value env (self w)", OF n] obtain pre k post vs where
    s: "[min_n_components (self w)..max_n_components (self w)] = pre @ k # post"
       "map (dic_value env (self w)) pre = map Inr vs" "isl (dic_value env (self w) k)"
    by blast
  from s(3) obtain e where e: "dic_value env (self w) k = Inl e" by (auto simp: isl_def)
  from dic_select_fail[OF s(1,2) e] show ?thesis by auto
next
  case False
  then have "\<forall>n\<in>set [min_n_components (self w)..max_n_components (self w)].
               \<exists>v. dic_value env (self w) n = Inr v"
    by (metis isl_def sum.exhaust_sel sum.collapse(2))
  from dic_select_ok[OF map_all_Inr[OF this]] show ?thesis by auto
qed

lemma assigned_lengths:
  "2 \<le> length (sequences s) \<Longrightarrow>
     length (lengths (assigned s (first_fold (length (sequences s))))) < length (sequences s) \<and>
     length (lengths (assigned s (second_fold (length (sequences s))))) < length (sequences s)"
proof -
  assume "2 \<le> length (sequences s)"
  from split_at_less[OF this]
  have "length (sequences s) - split_at (length (sequences s)) < length (sequences s)"
    and "split_at (length (sequences s)) < length (sequences s)"
    by arith+
  then show ?thesis
    by (simp add: assigned_def combined_def first_fold_def second_fold_def)
qed

lemma cv_select_left:
  assumes len: "2 \<le> length (sequences (self w))"
    and range: "min_n_components (self w) \<le> max_n_components (self w)"
  shows "\<exists>k\<in>set [min_n_components (self w)..max_n_components (self w)].
           self (snd (SelectorCV_select env w)) = cv_left env (self w) k \<and>
           ((\<forall>n\<in>set [min_n_components (self w)..max_n_components (self w)].
               \<exists>v. cv_value env (self w) n = Inr v) \<longrightarrow>
            \<not> isl (cv_fold env (self w) k (first_fold (length (sequences (self w))))))"
proof (cases "\<exists>n\<in>set [min_n_components (self w)..max_n_components (self w)].
                isl (cv_value env (self w) n)")
  case True
  then obtain n where n: "n \<in> set [min_n_components (self w)..max_n_components (self w)]"
    "isl (cv_value env (self w) n)"
    by blast
  from first_failure[where f = "cv_value env (self w)", OF n] obtain pre k post vs where
    s: "[min_n_components (self w)..max_n_components (self w)] = pre @ k # post"
       "map (cv_value env (self w)) pre = map Inr vs" "isl (cv_value env (self w) k)"
    by blast
  from s(3) obtain e where e: "cv_value env (self w) k = Inl e" by (auto simp: isl_def)
  have k: "k \<in> set [min_n_components (self w)..max_n_components (self w)]"
    unfolding s(1) by simp
  have "\<not> (\<forall>n\<in>set [min_n_components (self w)..max_n_components (self w)].
               \<exists>v. cv_value env (self w) n = Inr v)"
    using k e by (metis sum.distinct(1))
  with cv_select_fail[OF s(1,2) e] k show ?thesis by blast
next
  case False
  then have all: "\<forall>n\<in>set [min_n_components (self w)..max_n_components (self w)].
               \<exists>v. cv_value env (self w) n = Inr v"
    by (metis isl_def sum.exhaust_sel sum.collapse(2))
  have k: "max_n_components (self w) \<in> set [min_n_components (self w)..max_n_components (self w)]"
    using range by simp
  with all obtain v where v: "cv_value env (self w) (max_n_components (self w)) = Inr v"
    by blast
  then have "\<not> isl (cv_fold env (self w) (max_n_components (self w))
                     (first_fold (length (sequences (self w)))))"
    by (auto simp: cv_value_def isl_def split: if_splits sum.splits)
  moreover have "self (snd (SelectorCV_select env w)) =
      cv_left env (self w) (max_n_components (self w))"
    using cv_select_ok[OF map_all_Inr[OF all]] range by simp
  ultimately show ?thesis using k by blast
qed

text \<open>
  Claim C9. The Constant, BIC and DIC selectors leave the selector, so \<^verbatim>\<open>self.X\<close> and
  \<^verbatim>\<open>self.lengths\<close>, as it was. \<^verbatim>\<open>SelectorCV.select()\<close> leaves it as it was when no fold
  iteration runs (fewer than two sequences, or an empty range). For a word of at least two
  sequences, \<^verbatim>\<open>cv_score\<close> leaves in \<^verbatim>\<open>self.X, self.lengths\<close> the combined training data of the
  fold it assigned last: the first fold's if the first fold failed, the second's otherwise;
  and \<^verbatim>\<open>select()\<close> leaves what the last candidate it ran left: the second fold's training
  data when every candidate returned, and what the first failing candidate \<open>k\<close> left when
  one fails. In both cases \<^verbatim>\<open>self.lengths\<close> has fewer entries than the word has sequences, so
  it is not the original list of one length per sequence.
\<close>

theorem cv_select_overwrites_data:
  "self (snd (SelectorConstant_select env w)) = self w \<and>
   self (snd (SelectorBIC_select env w)) = self w \<and>
   self (snd (SelectorDIC_select env w)) = self w \<and>
   (length (sequences (self w)) < 2 \<or> max_n_components (self w) < min_n_components (self w) \<longrightarrow>
      self (snd (SelectorCV_select env w)) = self w) \<and>
   (2 \<le> length (sequences (self w)) \<longrightarrow>
      self (snd (cv_score env n w)) =
        assigned (self w)
          (if isl (cv_fold env (self w) n (first_fold (length (sequences (self w)))))
           then first_fold (length (sequences (self w)))
           else second_fold (length (sequences (self w))))) \<and>
   (2 \<le> length (sequences (self w)) \<and>
    min_n_components (self w) \<le> max_n_components (self w) \<and>
    (\<forall>j\<in>set [min_n_components (self w)..max_n_components (self w)].
        \<exists>v. fst (cv_score env j w) = Inr v) \<longrightarrow>
      self (snd (SelectorCV_select env w)) =
        assigned (self w) (second_fold (length (sequences (self w))))) \<and>
   (2 \<le> length (sequences (self w)) \<and>
    [min_n_components (self w)..max_n_components (self w)] = pre @ k # post \<and>
    (\<forall>j\<in>set pre. \<exists>v. fst (cv_score env j w) = Inr v) \<and>
    isl (fst (cv_score env k w)) \<longrightarrow>
      self (snd (SelectorCV_select env w)) =
        assigned (self w)
          (if isl (cv_fold env (self w) k (first_fold (length (sequences (self w)))))
           then first_fold (length (sequences (self w)))
           else second_fold (length (sequences (self w))))) \<and>
   (2 \<le> length (sequences (self w)) \<and>
    min_n_components (self w) \<le> max_n_components (self w) \<longrightarrow>
      length (lengths (self (snd (SelectorCV_select env w)))) < length (sequences (self w)) \<and>
      (length (lengths (self w)) = length (sequences (self w)) \<longrightarrow>
         lengths (self (snd (SelectorCV_select env w))) \<noteq> lengths (self w)))"
proof (intro conjI impI)
  show "self (snd (SelectorConstant_select env w)) = self w" by (simp add: constant_eq)
  show "self (snd (SelectorBIC_select env w)) = self w" by (simp add: bic_select_eq)
  show "self (snd (SelectorDIC_select env w)) = self w" by (rule dic_select_self)
next
  assume a: "length (sequences (self w)) < 2 \<or>
    max_n_components (self w) < min_n_components (self w)"
  show "self (snd (SelectorCV_select env w)) = self w"
  proof (cases "max_n_components (self w) < min_n_components (self w)")
    case True
    then have "map (cv_value env (self w)) [min_n_components (self w)..max_n_components (self w)] =
        map Inr []"
      by simp
    from cv_select_ok[OF this] True show ?thesis by simp
  next
    case False
    with a have short: "length (sequences (self w)) < 2" by simp
    have r: "[min_n_components (self w)..max_n_components (self w)] =
        [] @ min_n_components (self w) # [min_n_components (self w) + 1..max_n_components (self w)]"
      using False by (simp add: upto_rec1)
    have m: "map (cv_value env (self w)) [] = map Inr []" by simp
    have e: "cv_value env (self w) (min_n_components (self w)) = Inl ValueError"
      using short by (simp add: cv_value_def)
    from cv_select_fail[OF r m e] short show ?thesis by (simp add: cv_left_def)
  qed
next
  assume "2 \<le> length (sequences (self w))"
  then show "self (snd (cv_score env n w)) =
        assigned (self w)
          (if isl (cv_fold env (self w) n (first_fold (length (sequences (self w)))))
           then first_fold (length (sequences (self w)))
           else second_fold (length (sequences (self w))))"
    by (simp add: cv_score_self cv_left_def)
next
  assume a: "2 \<le> length (sequences (self w)) \<and>
    min_n_components (self w) \<le> max_n_components (self w) \<and>
    (\<forall>j\<in>set [min_n_components (self w)..max_n_components (self w)].
        \<exists>v. fst (cv_score env j w) = Inr v)"
  then have len: "2 \<le> length (sequences (self w))"
    and range: "min_n_components (self w) \<le> max_n_components (self w)"
    and all: "\<forall>j\<in>set [min_n_components (self w)..max_n_components (self w)].
        \<exists>v. cv_value env (self w) j = Inr v"
    by (simp_all add: cv_score_fst)
  have "max_n_components (self w) \<in> set [min_n_components (self w)..max_n_components (self w)]"
    using range by simp
  with all obtain v where "cv_value env (self w) (max_n_components (self w)) = Inr v"
    by blast
  then have "\<not> isl (cv_fold env (self w) (max_n_components (self w))
                     (first_fold (length (sequences (self w)))))"
    by (auto simp: cv_value_def isl_def split: if_splits sum.splits)
  with cv_select_ok[OF map_all_Inr[OF all]] range len
  show "self (snd (SelectorCV_select env w)) =
        assigned (self w) (second_fold (length (sequences (self w))))"
    by (simp add: cv_left_def)
next
  assume a: "2 \<le> length (sequences (self w)) \<and>
    [min_n_components (self w)..max_n_components (self w)] = pre @ k # post \<and>
    (\<forall>j\<in>set pre. \<exists>v. fst (cv_score env j w) = Inr v) \<and>
    isl (fst (cv_score env k w))"
  then have len: "2 \<le> length (sequences (self w))"
    and r: "[min_n_components (self w)..max_n_components (self w)] = pre @ k # post"
    and all: "\<forall>j\<in>set pre. \<exists>v. cv_value env (self w) j = Inr v"
    and f: "isl (cv_value env (self w) k)"
    by (simp_all add: cv_score_fst)
  from f obtain e where e: "cv_value env (self w) k = Inl e" by (auto simp: isl_def)
  from cv_select_fail[OF r map_all_Inr[OF all] e] len
  show "self (snd (SelectorCV_select env w)) =
        assigned (self w)
          (if isl (cv_fold env (self w) k (first_fold (length (sequences (self w)))))
           then first_fold (length (sequences (self w)))
           else second_fold (length (sequences (self w))))"
    by (simp add: cv_left_def)
next
  assume a: "2 \<le> length (sequences (self w)) \<and>
    min_n_components (self w) \<le> max_n_components (self w)"
  then have len: "2 \<le> length (sequences (self w))"
    and range: "min_n_components (self w) \<le> max_n_components (self w)"
    by simp_all
  from cv_select_left[OF len range, of env] obtain k where
    k: "self (snd (SelectorCV_select env w)) = cv_left env (self w) k"
    by blast
  have either: "self (snd (SelectorCV_select env w)) =
        assigned (self w) (first_fold (length (sequences (self w)))) \<or>
      self (snd (SelectorCV_select env w)) =
        assigned (self w) (second_fold (length (sequences (self w))))"
    using k len by (simp add: cv_left_def)
  with assigned_lengths[OF len]
  show less: "length (lengths (self (snd (SelectorCV_select env w)))) <
      length (sequences (self w))"
    by auto
  show "lengths (self (snd (SelectorCV_select env w))) \<noteq> lengths (self w)"
    if "length (lengths (self w)) = length (sequences (self w))"
    using less that by auto
qed

theorem cv_select_overwrites_data_witness:
  "X (self (ex_world ex_sel)) = [1, 2] \<and> lengths (self (ex_world ex_sel)) = [1, 1] \<and>
   X (self (snd (SelectorCV_select (ex_env []) (ex_world ex_sel)))) = [1] \<and>
   lengths (self (snd (SelectorCV_select (ex_env []) (ex_world ex_sel)))) = [1] \<and>
   X (self (snd (SelectorCV_select (ex_env [3]) (ex_world ex_sel)))) = [2] \<and>
   lengths (self (snd (SelectorCV_select (ex_env [3]) (ex_world ex_sel)))) = [1] \<and>
   X (self (snd (SelectorDIC_select (ex_env [3]) (ex_world ex_sel)))) = [1, 2]"
proof -
  have w: "self (ex_world ex_sel) = ex_sel" by (simp add: ex_world_def)
  have range: "[min_n_components ex_sel..max_n_components ex_sel] = [2, 3, 4]"
    by (simp add: ex_sel_def upto.simps)
  have len: "length (sequences ex_sel) = Suc (Suc 0)" by (simp add: ex_sel_def)
  have ok: "2 \<le> length (sequences (self (ex_world ex_sel))) \<and>
      min_n_components (self (ex_world ex_sel)) \<le> max_n_components (self (ex_world ex_sel)) \<and>
      (\<forall>j\<in>set [min_n_components (self (ex_world ex_sel))..
                  max_n_components (self (ex_world ex_sel))].
          \<exists>v. fst (cv_score (ex_env []) j (ex_world ex_sel)) = Inr v)"
    by (simp add: cv_score_fst w range ex_cv_value) (simp add: ex_sel_def)
  have bad: "2 \<le> length (sequences (self (ex_world ex_sel))) \<and>
      [min_n_components (self (ex_world ex_sel))..max_n_components (self (ex_world ex_sel))] =
        [2] @ 3 # [4] \<and>
      (\<forall>j\<in>set [2]. \<exists>v. fst (cv_score (ex_env [3]) j (ex_world ex_sel)) = Inr v) \<and>
      isl (fst (cv_score (ex_env [3]) 3 (ex_world ex_sel)))"
    by (simp add: cv_score_fst w range) (simp add: ex_defs ex_cv_defs)
  note a = cv_select_overwrites_data[where env = "ex_env []" and w = "ex_world ex_sel"]
  note b = cv_select_overwrites_data[where env = "ex_env [3]" and w = "ex_world ex_sel"
      and pre = "[2]" and k = 3 and post = "[4]"]
  from a ok have 1: "self (snd (SelectorCV_select (ex_env []) (ex_world ex_sel))) =
      assigned (self (ex_world ex_sel))
        (second_fold (length (sequences (self (ex_world ex_sel)))))"
    by blast
  from b bad have 2: "self (snd (SelectorCV_select (ex_env [3]) (ex_world ex_sel))) =
      assigned (self (ex_world ex_sel))
        (if isl (cv_fold (ex_env [3]) (self (ex_world ex_sel)) 3
                  (first_fold (length (sequences (self (ex_world ex_sel))))))
         then first_fold (length (sequences (self (ex_world ex_sel))))
         else second_fold (length (sequences (self (ex_world ex_sel)))))"
    by blast
  from b have 3: "self (snd (SelectorDIC_select (ex_env [3]) (ex_world ex_sel))) =
      self (ex_world ex_sel)"
    by blast
  show ?thesis unfolding 1 2 3 w len by (simp add: ex_defs ex_cv_defs)
qed

subsection \<open>The fallback of the cross-validation selector\<close>

lemma ex3_cv_value: "cv_value ex_env_small ex_sel3 2 = Inl AttributeError"
  by (simp add: ex_env_small_def ex_sel3_def ex_cv_defs)

text \<open>
  Claim C1 fails on the code. With the trainer \<open>ex_env_small\<close> and the word of three
  sequences, every candidate of the range 2..4 fails in \<^verbatim>\<open>cv_score\<close>: the first fold's
  training data is one observation. \<^verbatim>\<open>cv_score\<close> has assigned that fold's data to
  \<^verbatim>\<open>self.X, self.lengths\<close>, so the fallback \<^verbatim>\<open>base_model(n_constant)\<close> trains 3 states on one
  observation and returns \<^verbatim>\<open>None\<close>, where \<^verbatim>\<open>SelectorConstant.select()\<close> trains on the three
  observations of the word and returns a model. With a trainer that fails at 2, 3 and 4
  states on any data and \<^verbatim>\<open>n_constant = 1\<close>, both return a model, but the cross-validation
  selector's is trained on the first fold's training data \<open>[2]\<close>, the constant selector's on
  the word's data \<open>[1, 2]\<close>.
\<close>

theorem cv_fallback_trains_on_fold_data:
  "fst (cv_score ex_env_small 2 (ex_world ex_sel3)) = Inl AttributeError \<and>
   fst (cv_score ex_env_small 3 (ex_world ex_sel3)) = Inl AttributeError \<and>
   fst (cv_score ex_env_small 4 (ex_world ex_sel3)) = Inl AttributeError \<and>
   fst (SelectorCV_select ex_env_small (ex_world ex_sel3)) = Inr None \<and>
   fst (SelectorConstant_select ex_env_small (ex_world ex_sel3)) = Inr (Some (3, [1, 2, 3])) \<and>
   fst (SelectorCV_select (ex_env [2, 3, 4]) (ex_world (ex_sel\<lparr>n_constant := 1\<rparr>))) =
     Inr (Some (1, [2])) \<and>
   fst (SelectorConstant_select (ex_env [2, 3, 4]) (ex_world (ex_sel\<lparr>n_constant := 1\<rparr>))) =
     Inr (Some (1, [1, 2]))"
proof -
  have w: "self (ex_world s) = s" for s :: "int ModelSelector" by (simp add: ex_world_def)
  have r3: "[min_n_components ex_sel3..max_n_components ex_sel3] = [] @ 2 # [3, 4]"
    by (simp add: ex_sel3_def upto.simps)
  have r: "[min_n_components (ex_sel\<lparr>n_constant := 1\<rparr>)..
             max_n_components (ex_sel\<lparr>n_constant := 1\<rparr>)] = [] @ 2 # [3, 4]"
    by (simp add: ex_sel_def upto.simps)
  have e: "cv_value (ex_env [2, 3, 4]) (ex_sel\<lparr>n_constant := 1\<rparr>) 2 = Inl AttributeError"
    by (simp add: ex_defs ex_cv_defs)
  have m: "map (cv_value env s) [] = map Inr []" for env :: "(int, int \<times> int list) hmmlearn" and s
    by simp
  have 1: "fst (SelectorCV_select ex_env_small (ex_world ex_sel3)) = Inr None"
    using cv_select_fail[of "ex_world ex_sel3" "[]" 2 "[3, 4]" ex_env_small "[]" AttributeError]
    by (simp add: w r3 ex3_cv_value) (simp add: ex_env_small_def ex_sel3_def ex_cv_defs)
  have 2: "fst (SelectorCV_select (ex_env [2, 3, 4]) (ex_world (ex_sel\<lparr>n_constant := 1\<rparr>))) =
     Inr (Some (1, [2]))"
    using cv_select_fail[of "ex_world (ex_sel\<lparr>n_constant := 1\<rparr>)" "[]" 2 "[3, 4]"
        "ex_env [2, 3, 4]" "[]" AttributeError]
    by (simp add: w r e) (simp add: ex_defs ex_cv_defs)
  show ?thesis
    by (simp add: 1 2 cv_score_fst w constant_eq trained_def)
       (simp add: ex_env_small_def ex_sel3_def ex_defs ex_cv_defs)
qed

subsection \<open>Equal scores\<close>












end
